theory Spec2Isabelle
  imports Main
begin

section \<open>The relational store\<close>

text \<open>
  The tables of \<^verbatim>\<open>schema.sql\<close> that the services touch, one record per row type
  and one list of rows per table. Identifiers (\<^verbatim>\<open>BIGINT\<close>, Go \<^verbatim>\<open>int64\<close>) and
  quantities are integers. Amounts are \<^verbatim>\<open>DECIMAL(10, 2)\<close> columns; they are
  taken as exact integers counted in hundredths, the fixed-point reading of the data
  model, so that sums are exact. The columns \<^verbatim>\<open>products.description\<close> and
  \<^verbatim>\<open>products.category\<close> are nullable and are optional strings. Of the
  timestamps only \<^verbatim>\<open>orders.updated_at\<close> is kept, as a count of seconds (the column
  is a \<^verbatim>\<open>TIMESTAMP\<close> without fractional seconds): the status update writes it and the
  number of rows it changes depends on it. Operations run one after the other; no other
  request interleaves with a transaction.
\<close>

record product_row =
  p_id :: int
  p_name :: string
  p_description :: "string option"
  p_price :: int
  p_category :: "string option"
  p_sku :: string

record cart_row =
  c_id :: int
  c_user_id :: int

record cart_item_row =
  ci_id :: int
  ci_cart_id :: int
  ci_product_id :: int
  ci_quantity :: int

record order_row =
  o_id :: int
  o_user_id :: int
  o_status :: string
  o_payment_method :: string
  o_total_amount :: int
  o_currency :: string
  o_updated_at :: int

record order_item_row =
  oi_id :: int
  oi_order_id :: int
  oi_product_id :: int
  oi_quantity :: int
  oi_price :: int

record db =
  products :: "product_row list"
  carts :: "cart_row list"
  cart_items :: "cart_item_row list"
  orders :: "order_row list"
  order_items :: "order_item_row list"

text \<open>
  \<^verbatim>\<open>AUTO_INCREMENT\<close>: the identifier handed to a new row is larger than every
  identifier in the table.
\<close>

definition auto_increment :: "int list \<Rightarrow> int" where
  "auto_increment ids = fold max ids 0 + 1"

section \<open>Errors and metric events\<close>

text \<open>
  The services return \<^verbatim>\<open>fmt.Errorf\<close> values; each distinct message is one
  constructor. An error of the store itself (a failed query, exec, scan or commit) is an
  input of the model: each operation takes a record saying which of its store calls fail.
\<close>

datatype error =
    BeginFailed
  | CartQueryFailed
  | CartScanFailed
  | EmptyCart
  | OrderInsertFailed
  | OrderIdFailed
  | OrderItemInsertFailed
  | CommitFailed
  | OrderNotFound
  | GetOrderFailed
  | InvalidStatus string
  | UpdateStatusFailed
  | RowsAffectedFailed
  | GetCartFailed
  | CreateCartFailed
  | CartIdFailed
  | VerifyProductFailed
  | ProductNotFound
  | CheckCartItemFailed
  | AddItemFailed
  | UpdateItemFailed
  | GetProductFailed

text \<open>
  The business metrics, with the attributes the code attaches:
  \<^verbatim>\<open>OrdersCreated\<close> (count; order status, payment method, product category),
  \<^verbatim>\<open>RevenueTotal\<close> (amount; currency, payment method, product category, order
  status), the cache counters, \<^verbatim>\<open>ProductsViewed\<close> (product id, category) and the
  \<^verbatim>\<open>CartItemsCount\<close> gauge (count; user id). The type of the revenue amount is a
  parameter: \<^verbatim>\<open>CreateOrder\<close> below carries it in exact hundredths, the status
  update carries the \<^verbatim>\<open>float64\<close> value that the code computes.
\<close>

datatype 'a event =
    OrdersCreated int string string string
  | RevenueTotal 'a string string string string
  | CacheHits
  | CacheMisses
  | ProductsViewed int string
  | CartItemsCount int int

section \<open>Order service: CreateOrder\<close>

text \<open>The anonymous struct of the cart loop and \<^verbatim>\<open>itemWithCategory\<close>.\<close>

record item =
  ProductID :: int
  Quantity :: int
  Price :: int

record itemWithCategory =
  productID :: int
  quantity :: int
  price :: int
  category :: string

text \<open>
  The store calls of \<^verbatim>\<open>CreateOrder\<close> that can return an error, in source order.
  \<^verbatim>\<open>item_insert_fails k\<close> is the outcome of the insert of the \<open>k\<close>-th order item.
  \<^verbatim>\<open>pool_products\<close> is the products table as the pooled connection \<^verbatim>\<open>s.db\<close>
  reads it for the category query, which runs outside the transaction.
  \<^verbatim>\<open>insert_time\<close> is the store's \<^verbatim>\<open>CURRENT_TIMESTAMP\<close>, in seconds, at the insert of
  the order row.
\<close>

record create_env =
  begin_fails :: bool
  cart_query_fails :: bool
  cart_scan_fails :: bool
  cat_query_fails :: bool
  pool_products :: "product_row list"
  order_insert_fails :: bool
  last_insert_id_fails :: bool
  item_insert_fails :: "nat \<Rightarrow> bool"
  cart_id_fails :: bool
  cart_delete_fails :: bool
  commit_fails :: bool
  get_order_fails :: bool
  insert_time :: int

text \<open>
  \<^verbatim>\<open>SELECT ci.product_id, ci.quantity, p.price FROM cart_items ci JOIN products p
  ON ci.product_id = p.id JOIN carts c ON ci.cart_id = c.id WHERE c.user_id = ?\<close>
\<close>

definition cartQuery :: "db \<Rightarrow> int \<Rightarrow> item list" where
  "cartQuery d userID =
     [\<lparr>ProductID = ci_product_id ci, Quantity = ci_quantity ci, Price = p_price p\<rparr>.
        ci \<leftarrow> cart_items d,
        p \<leftarrow> products d, ci_product_id ci = p_id p,
        c \<leftarrow> carts d, ci_cart_id ci = c_id c, c_user_id c = userID]"

text \<open>The accumulation \<^verbatim>\<open>totalAmount += item.Price * float64(item.Quantity)\<close>.\<close>

definition totalAmount :: "item list \<Rightarrow> int" where
  "totalAmount items = foldl (\<lambda>acc it. acc + Price it * Quantity it) 0 items"

text \<open>
  \<^verbatim>\<open>SELECT id, category FROM products WHERE id IN (...)\<close> and the loop filling
  \<^verbatim>\<open>categoryMap\<close>: a row whose scan fails (a NULL category does not scan into a Go
  string) is skipped.
\<close>

definition catQuery :: "product_row list \<Rightarrow> int list \<Rightarrow> product_row list" where
  "catQuery ps productIDs = filter (\<lambda>p. p_id p \<in> set productIDs) ps"

fun fillCategoryMap :: "(int \<rightharpoonup> string) \<Rightarrow> product_row list \<Rightarrow> (int \<rightharpoonup> string)" where
  "fillCategoryMap m [] = m"
| "fillCategoryMap m (p # ps) =
     (case p_category p of
        None \<Rightarrow> fillCategoryMap m ps
      | Some cat \<Rightarrow> fillCategoryMap (m(p_id p \<mapsto> cat)) ps)"

definition categoryMap :: "create_env \<Rightarrow> item list \<Rightarrow> (int \<rightharpoonup> string)" where
  "categoryMap e items =
     (if cat_query_fails e then Map.empty
      else fillCategoryMap Map.empty (catQuery (pool_products e) (map ProductID items)))"

text \<open>
  A Go map read of a missing key gives the zero value, the empty string; the empty
  category becomes \<^verbatim>\<open>"unknown"\<close>.
\<close>

definition categoryOf :: "(int \<rightharpoonup> string) \<Rightarrow> int \<Rightarrow> string" where
  "categoryOf m pid =
     (let cat = (case m pid of None \<Rightarrow> [] | Some c \<Rightarrow> c)
      in if cat = [] then ''unknown'' else cat)"

definition withCategory :: "(int \<rightharpoonup> string) \<Rightarrow> item \<Rightarrow> itemWithCategory" where
  "withCategory m it =
     \<lparr>productID = ProductID it, quantity = Quantity it, price = Price it,
      category = categoryOf m (ProductID it)\<rparr>"

text \<open>
  \<^verbatim>\<open>INSERT INTO orders (user_id, status, payment_method, total_amount, currency)
  VALUES (?, 'pending', ?, ?, ?)\<close> and \<^verbatim>\<open>LastInsertId\<close>. The column
  \<^verbatim>\<open>updated_at\<close> takes its default, the current timestamp.
\<close>

definition newOrderID :: "db \<Rightarrow> int" where
  "newOrderID t = auto_increment (map o_id (orders t))"

definition insertOrder :: "db \<Rightarrow> int \<Rightarrow> string \<Rightarrow> int \<Rightarrow> string \<Rightarrow> int \<Rightarrow> db" where
  "insertOrder t userID paymentMethod amount currency now =
     t\<lparr>orders := orders t @
          [\<lparr>o_id = newOrderID t, o_user_id = userID, o_status = ''pending'',
            o_payment_method = paymentMethod, o_total_amount = amount,
            o_currency = currency, o_updated_at = now\<rparr>]\<rparr>"

text \<open>
  \<^verbatim>\<open>INSERT INTO order_items (order_id, product_id, quantity, price) VALUES (?, ?, ?, ?)\<close>,
  once per item; the loop returns at the first insert that fails.
\<close>

definition insertOrderItem :: "db \<Rightarrow> int \<Rightarrow> item \<Rightarrow> db" where
  "insertOrderItem t orderID it =
     t\<lparr>order_items := order_items t @
          [\<lparr>oi_id = auto_increment (map oi_id (order_items t)), oi_order_id = orderID,
            oi_product_id = ProductID it, oi_quantity = Quantity it,
            oi_price = Price it\<rparr>]\<rparr>"

fun insertOrderItems :: "(nat \<Rightarrow> bool) \<Rightarrow> nat \<Rightarrow> int \<Rightarrow> item list \<Rightarrow> db \<Rightarrow> db option" where
  "insertOrderItems fails k orderID [] t = Some t"
| "insertOrderItems fails k orderID (it # items) t =
     (if fails k then None
      else insertOrderItems fails (Suc k) orderID items (insertOrderItem t orderID it))"

text \<open>
  The cart clear. \<^verbatim>\<open>QueryRowContext(...).Scan(&cartID)\<close> takes the first cart row of
  the user (an error when there is none); the delete runs only when that lookup gave no
  error. The error of either call is left in \<^verbatim>\<open>err\<close> and overwritten by the
  result of \<^verbatim>\<open>tx.Commit()\<close>, so the function continues in every case.
\<close>

definition clearCart :: "create_env \<Rightarrow> db \<Rightarrow> int \<Rightarrow> db" where
  "clearCart e t userID =
     (if cart_id_fails e then t
      else case find (\<lambda>c. c_user_id c = userID) (carts t) of
             None \<Rightarrow> t
           | Some c \<Rightarrow>
               if cart_delete_fails e then t
               else t\<lparr>cart_items := filter (\<lambda>ci. ci_cart_id ci \<noteq> c_id c) (cart_items t)\<rparr>)"

text \<open>\<^verbatim>\<open>GetOrder\<close>: \<^verbatim>\<open>SELECT ... FROM orders WHERE id = ?\<close> on the pooled connection.\<close>

definition GetOrder :: "db \<Rightarrow> bool \<Rightarrow> int \<Rightarrow> error + order_row" where
  "GetOrder d fails orderID =
     (if fails then Inl GetOrderFailed
      else case find (\<lambda>ord. o_id ord = orderID) (orders d) of
             None \<Rightarrow> Inl OrderNotFound
           | Some ord \<Rightarrow> Inr ord)"

text \<open>
  The two aggregation maps \<^verbatim>\<open>categoryRevenue\<close> and \<^verbatim>\<open>categoryOrders\<close> are
  association lists keyed by category, in order of first insertion; \<^verbatim>\<open>m[k] += v\<close>
  on a missing key starts from zero. Go ranges over a map in no fixed order; the model
  emits in insertion order.
\<close>

fun addAt :: "string \<Rightarrow> int \<Rightarrow> (string \<times> int) list \<Rightarrow> (string \<times> int) list" where
  "addAt k v [] = [(k, v)]"
| "addAt k v ((k', v') # m) =
     (if k' = k then (k', v' + v) # m else (k', v') # addAt k v m)"

definition valueAt :: "(string \<times> int) list \<Rightarrow> string \<Rightarrow> int" where
  "valueAt m k = (case map_of m k of None \<Rightarrow> 0 | Some v \<Rightarrow> v)"

definition categoryRevenue :: "itemWithCategory list \<Rightarrow> (string \<times> int) list" where
  "categoryRevenue items =
     foldl (\<lambda>m it. addAt (category it) (price it * quantity it) m) [] items"

definition categoryOrders :: "itemWithCategory list \<Rightarrow> (string \<times> int) list" where
  "categoryOrders items = foldl (\<lambda>m it. addAt (category it) 1 m) [] items"

definition recordCreated ::
  "order_row \<Rightarrow> string \<Rightarrow> string \<Rightarrow> itemWithCategory list \<Rightarrow> int event list" where
  "recordCreated ord paymentMethod currency items =
     concat (map (\<lambda>(cat, orderCount).
        [OrdersCreated orderCount (o_status ord) paymentMethod cat,
         RevenueTotal (valueAt (categoryRevenue items) cat) currency paymentMethod cat
           (o_status ord)])
        (categoryOrders items))"

text \<open>
  \<^verbatim>\<open>CreateOrder\<close>. The transaction works on a copy \<open>t\<close> of the committed store
  \<open>d\<close>; the deferred \<^verbatim>\<open>tx.Rollback()\<close> discards the copy on every return before
  the commit, and the commit makes the copy the store. A query gives an error or all of
  its rows; the code has no check of \<^verbatim>\<open>rows.Err()\<close> after the cart loop, and an
  iteration that breaks off midway is not modelled. The result is the returned value,
  the store afterwards and the metric events emitted.
\<close>

definition CreateOrder ::
  "db \<Rightarrow> create_env \<Rightarrow> int \<Rightarrow> string \<Rightarrow> string \<Rightarrow>
     (error + order_row) \<times> db \<times> int event list" where
  "CreateOrder d e userID paymentMethod currency =
     (if begin_fails e then (Inl BeginFailed, d, [])
      else if cart_query_fails e then (Inl CartQueryFailed, d, [])
      else
        let items = cartQuery d userID in
        if items \<noteq> [] \<and> cart_scan_fails e then (Inl CartScanFailed, d, [])
        else if items = [] then (Inl EmptyCart, d, [])
        else
          let itemsWithCategories = map (withCategory (categoryMap e items)) items in
          if order_insert_fails e then (Inl OrderInsertFailed, d, [])
          else
            let t1 = insertOrder d userID paymentMethod (totalAmount items) currency
                       (insert_time e);
                orderID = newOrderID d
            in
            if last_insert_id_fails e then (Inl OrderIdFailed, d, [])
            else
              case insertOrderItems (item_insert_fails e) 0 orderID items t1 of
                None \<Rightarrow> (Inl OrderItemInsertFailed, d, [])
              | Some t2 \<Rightarrow>
                  let t3 = clearCart e t2 userID in
                  if commit_fails e then (Inl CommitFailed, d, [])
                  else
                    (case GetOrder t3 (get_order_fails e) orderID of
                       Inl err \<Rightarrow> (Inl err, t3, [])
                     | Inr ord \<Rightarrow>
                         (Inr ord, t3,
                          recordCreated ord paymentMethod currency itemsWithCategories)))"

text \<open>
  The cart items that belong to a cart of the user: what the user's cart holds.
\<close>

definition userCartItems :: "db \<Rightarrow> int \<Rightarrow> cart_item_row list" where
  "userCartItems d userID =
     filter (\<lambda>ci. \<exists>c\<in>set (carts d). c_id c = ci_cart_id ci \<and> c_user_id c = userID)
       (cart_items d)"

section \<open>Order service: UpdateOrderStatus\<close>

text \<open>
  \<^verbatim>\<open>validStatuses\<close> is a \<^verbatim>\<open>map[string]bool\<close>; reading a missing key gives
  \<^verbatim>\<open>false\<close>.
\<close>

definition validStatuses :: "string \<rightharpoonup> bool" where
  "validStatuses =
     [''pending'' \<mapsto> True, ''processing'' \<mapsto> True, ''completed'' \<mapsto> True,
      ''cancelled'' \<mapsto> True, ''shipped'' \<mapsto> True, ''delivered'' \<mapsto> True]"

definition isValidStatus :: "string \<Rightarrow> bool" where
  "isValidStatus status = (case validStatuses status of None \<Rightarrow> False | Some b \<Rightarrow> b)"

text \<open>
  The amounts of the completed emission are Go \<^verbatim>\<open>float64\<close> values. Their arithmetic
  is not fixed here but taken as given: the scan of a \<^verbatim>\<open>DECIMAL\<close> column (handed
  over in hundredths) into a \<^verbatim>\<open>float64\<close>, the conversion \<^verbatim>\<open>float64(quantity)\<close>,
  the product, the sum and the zero value. Whatever is proved below holds for every such
  arithmetic, IEEE 754 with its rounding among them.
\<close>

record 'f float64_ops =
  f_scan :: "int \<Rightarrow> 'f"
  f_of_int :: "int \<Rightarrow> 'f"
  f_mul :: "'f \<Rightarrow> 'f \<Rightarrow> 'f"
  f_add :: "'f \<Rightarrow> 'f \<Rightarrow> 'f"
  f_zero :: 'f

text \<open>
  The store calls of \<^verbatim>\<open>UpdateOrderStatus\<close> that can return an error, the store's
  \<^verbatim>\<open>NOW()\<close> in seconds at the update, and the arithmetic of \<^verbatim>\<open>float64\<close>.
\<close>

record 'f status_env =
  status_update_fails :: bool
  rows_affected_fails :: bool
  refetch_fails :: bool
  item_query_fails :: bool
  now_seconds :: int
  float64 :: "'f float64_ops"

text \<open>
  \<^verbatim>\<open>UPDATE orders SET status = ?, updated_at = NOW() WHERE id = ?\<close>. The connection
  is opened without \<^verbatim>\<open>clientFoundRows\<close> (\<^verbatim>\<open>GetDSN\<close>), so \<^verbatim>\<open>RowsAffected\<close> is
  the number of rows the statement changed: a matching row that already holds the status
  and the timestamp being written does not count.
\<close>

definition updateStatus :: "db \<Rightarrow> int \<Rightarrow> string \<Rightarrow> int \<Rightarrow> db" where
  "updateStatus d orderID status now =
     d\<lparr>orders :=
         map (\<lambda>ord. if o_id ord = orderID
                     then ord\<lparr>o_status := status, o_updated_at := now\<rparr> else ord)
           (orders d)\<rparr>"

definition rowsAffected :: "db \<Rightarrow> int \<Rightarrow> string \<Rightarrow> int \<Rightarrow> nat" where
  "rowsAffected d orderID status now =
     length (filter (\<lambda>ord. o_id ord = orderID \<and>
                           \<not> (o_status ord = status \<and> o_updated_at ord = now))
               (orders d))"

text \<open>
  \<^verbatim>\<open>SELECT oi.product_id, oi.quantity, oi.price, p.category FROM order_items oi
  JOIN products p ON oi.product_id = p.id WHERE oi.order_id = ?\<close>, and the scan loop:
  a row whose category is NULL does not scan into the Go string, is logged and skipped
  (\<^verbatim>\<open>continue\<close>). A scanned row is (product id, quantity, price, category), the
  price a \<^verbatim>\<open>float64\<close>.
\<close>

definition itemQuery :: "db \<Rightarrow> int \<Rightarrow> (int \<times> int \<times> int \<times> string option) list" where
  "itemQuery d orderID =
     [(oi_product_id oi, oi_quantity oi, oi_price oi, p_category p).
        oi \<leftarrow> order_items d,
        p \<leftarrow> products d, oi_product_id oi = p_id p,
        oi_order_id oi = orderID]"

fun scanItems ::
  "'f float64_ops \<Rightarrow> (int \<times> int \<times> int \<times> string option) list \<Rightarrow> (int \<times> int \<times> 'f \<times> string) list"
  where
  "scanItems F [] = []"
| "scanItems F ((pid, qty, pr, None) # rows) = scanItems F rows"
| "scanItems F ((pid, qty, pr, Some cat) # rows) = (pid, qty, f_scan F pr, cat) # scanItems F rows"

text \<open>
  The loop body \<^verbatim>\<open>categoryRevenue[category] += price * float64(quantity)\<close> and
  \<^verbatim>\<open>categoryOrders[category]++\<close>. The revenue map holds \<^verbatim>\<open>float64\<close> values;
  \<^verbatim>\<open>+=\<close> on a missing key adds to the zero value, and a read of a missing key gives
  the zero value.
\<close>

definition rowCategory :: "int \<times> int \<times> 'f \<times> string \<Rightarrow> string" where
  "rowCategory r = snd (snd (snd r))"

definition rowAmount :: "'f float64_ops \<Rightarrow> int \<times> int \<times> 'f \<times> string \<Rightarrow> 'f" where
  "rowAmount F r = f_mul F (fst (snd (snd r))) (f_of_int F (fst (snd r)))"

fun addAt64 :: "'f float64_ops \<Rightarrow> string \<Rightarrow> 'f \<Rightarrow> (string \<times> 'f) list \<Rightarrow> (string \<times> 'f) list" where
  "addAt64 F k v [] = [(k, f_add F (f_zero F) v)]"
| "addAt64 F k v ((k', v') # m) =
     (if k' = k then (k', f_add F v' v) # m else (k', v') # addAt64 F k v m)"

definition valueAt64 :: "'f float64_ops \<Rightarrow> (string \<times> 'f) list \<Rightarrow> string \<Rightarrow> 'f" where
  "valueAt64 F m k = (case map_of m k of None \<Rightarrow> f_zero F | Some v \<Rightarrow> v)"

definition completedRevenue ::
  "'f float64_ops \<Rightarrow> (int \<times> int \<times> 'f \<times> string) list \<Rightarrow> (string \<times> 'f) list" where
  "completedRevenue F rows =
     foldl (\<lambda>m r. addAt64 F (rowCategory r) (rowAmount F r) m) [] rows"

definition completedOrders :: "(int \<times> int \<times> 'f \<times> string) list \<Rightarrow> (string \<times> int) list" where
  "completedOrders rows = foldl (\<lambda>m r. addAt (rowCategory r) 1 m) [] rows"

definition recordCompleted ::
  "'f float64_ops \<Rightarrow> order_row \<Rightarrow> (int \<times> int \<times> 'f \<times> string) list \<Rightarrow> 'f event list" where
  "recordCompleted F ord rows =
     concat (map (\<lambda>(cat, orderCount).
        [OrdersCreated orderCount ''completed'' (o_payment_method ord) cat,
         RevenueTotal (valueAt64 F (completedRevenue F rows) cat) (o_currency ord)
           (o_payment_method ord) cat ''completed''])
        (completedOrders rows))"

text \<open>
  \<^verbatim>\<open>UpdateOrderStatus\<close>. The update runs on the pooled connection and is committed
  at once, so an error of \<^verbatim>\<open>RowsAffected\<close> is returned with the write in place.
  After a write to \<^verbatim>\<open>completed\<close> every failure only ends the metrics part:
  the function returns \<^verbatim>\<open>nil\<close>.
\<close>

definition UpdateOrderStatus ::
  "db \<Rightarrow> 'f status_env \<Rightarrow> int \<Rightarrow> string \<Rightarrow> (error + unit) \<times> db \<times> 'f event list" where
  "UpdateOrderStatus d e orderID status =
     (if \<not> isValidStatus status then (Inl (InvalidStatus status), d, [])
      else if status_update_fails e then (Inl UpdateStatusFailed, d, [])
      else
        let d1 = updateStatus d orderID status (now_seconds e) in
        if rows_affected_fails e then (Inl RowsAffectedFailed, d1, [])
        else if rowsAffected d orderID status (now_seconds e) = 0
          then (Inl OrderNotFound, d1, [])
        else if status = ''completed'' then
          (case GetOrder d1 (refetch_fails e) orderID of
             Inl err \<Rightarrow> (Inr (), d1, [])
           | Inr ord \<Rightarrow>
               if item_query_fails e then (Inr (), d1, [])
               else
                 (Inr (), d1,
                  recordCompleted (float64 e) ord
                    (scanItems (float64 e) (itemQuery d1 orderID))))
        else (Inr (), d1, []))"

text \<open>The revenue events of an emission, as (category, amount, order status).\<close>

fun revenueOf :: "'a event list \<Rightarrow> (string \<times> 'a \<times> string) list" where
  "revenueOf [] = []"
| "revenueOf (RevenueTotal amount cur pm cat st # evs) = (cat, amount, st) # revenueOf evs"
| "revenueOf (ev # evs) = revenueOf evs"

text \<open>The order's items, and the order's total agreeing with them.\<close>

definition itemsOfOrder :: "db \<Rightarrow> int \<Rightarrow> order_item_row list" where
  "itemsOfOrder d orderID = filter (\<lambda>oi. oi_order_id oi = orderID) (order_items d)"

section \<open>Cart service\<close>

record cart_env =
  cart_select_fails :: bool
  cart_insert_fails :: bool
  cart_last_id_fails :: bool
  product_check_fails :: bool
  item_check_fails :: bool
  cart_item_insert_fails :: bool
  cart_item_update_fails :: bool
  count_query_fails :: bool
  user_query_fails :: bool

text \<open>
  \<^verbatim>\<open>GetOrCreateCart\<close>: \<^verbatim>\<open>SELECT ... FROM carts WHERE user_id = ? LIMIT 1\<close>, and
  on \<^verbatim>\<open>sql.ErrNoRows\<close> \<^verbatim>\<open>INSERT INTO carts (user_id) VALUES (?)\<close>. Every statement
  runs on the pooled connection and is committed at once.
\<close>

definition GetOrCreateCart :: "db \<Rightarrow> cart_env \<Rightarrow> int \<Rightarrow> (error + cart_row) \<times> db" where
  "GetOrCreateCart d e userID =
     (if cart_select_fails e then (Inl GetCartFailed, d)
      else case find (\<lambda>c. c_user_id c = userID) (carts d) of
             Some cart \<Rightarrow> (Inr cart, d)
           | None \<Rightarrow>
               if cart_insert_fails e then (Inl CreateCartFailed, d)
               else
                 let cart = \<lparr>c_id = auto_increment (map c_id (carts d)), c_user_id = userID\<rparr>;
                     d1 = d\<lparr>carts := carts d @ [cart]\<rparr>
                 in if cart_last_id_fails e then (Inl CartIdFailed, d1) else (Inr cart, d1))"

text \<open>
  \<^verbatim>\<open>updateCartItemsCount\<close>: \<^verbatim>\<open>SELECT COUNT(*) FROM cart_items WHERE cart_id = ?\<close>,
  then \<^verbatim>\<open>SELECT user_id FROM carts WHERE id = ?\<close>; the gauge is recorded only when
  both succeed.
\<close>

definition updateCartItemsCount :: "db \<Rightarrow> cart_env \<Rightarrow> int \<Rightarrow> int event list" where
  "updateCartItemsCount d e cartID =
     (if count_query_fails e then []
      else
        let count = length (filter (\<lambda>ci. ci_cart_id ci = cartID) (cart_items d)) in
        if user_query_fails e then []
        else case find (\<lambda>c. c_id c = cartID) (carts d) of
               None \<Rightarrow> []
             | Some c \<Rightarrow> [CartItemsCount (int count) (c_user_id c)])"

text \<open>
  \<^verbatim>\<open>AddToCart\<close>. The product check is
  \<^verbatim>\<open>SELECT EXISTS(SELECT 1 FROM products WHERE id = ?)\<close>; the item check
  \<^verbatim>\<open>SELECT id, quantity FROM cart_items WHERE cart_id = ? AND product_id = ?\<close> takes
  the first row; the update is
  \<^verbatim>\<open>UPDATE cart_items SET quantity = quantity + ? ... WHERE id = ?\<close>.
\<close>

definition insertCartItem :: "db \<Rightarrow> int \<Rightarrow> int \<Rightarrow> int \<Rightarrow> db" where
  "insertCartItem d cartID pid qty =
     d\<lparr>cart_items := cart_items d @
          [\<lparr>ci_id = auto_increment (map ci_id (cart_items d)), ci_cart_id = cartID,
            ci_product_id = pid, ci_quantity = qty\<rparr>]\<rparr>"

definition updateCartItem :: "db \<Rightarrow> int \<Rightarrow> int \<Rightarrow> db" where
  "updateCartItem d existingID qty =
     d\<lparr>cart_items :=
          map (\<lambda>ci. if ci_id ci = existingID then ci\<lparr>ci_quantity := ci_quantity ci + qty\<rparr>
                    else ci)
            (cart_items d)\<rparr>"

definition AddToCart ::
  "db \<Rightarrow> cart_env \<Rightarrow> int \<Rightarrow> int \<Rightarrow> int \<Rightarrow> (error + unit) \<times> db \<times> int event list" where
  "AddToCart d e userID pid qty =
     (case GetOrCreateCart d e userID of
        (Inl err, d1) \<Rightarrow> (Inl err, d1, [])
      | (Inr cart, d1) \<Rightarrow>
          if product_check_fails e then (Inl VerifyProductFailed, d1, [])
          else if \<not> (\<exists>p\<in>set (products d1). p_id p = pid)
            then (Inl ProductNotFound, d1, [])
          else if item_check_fails e then (Inl CheckCartItemFailed, d1, [])
          else
            (case find (\<lambda>ci. ci_cart_id ci = c_id cart \<and> ci_product_id ci = pid)
                    (cart_items d1) of
               None \<Rightarrow>
                 if cart_item_insert_fails e then (Inl AddItemFailed, d1, [])
                 else
                   let d2 = insertCartItem d1 (c_id cart) pid qty
                   in (Inr (), d2, updateCartItemsCount d2 e (c_id cart))
             | Some existing \<Rightarrow>
                 if cart_item_update_fails e then (Inl UpdateItemFailed, d1, [])
                 else
                   let d2 = updateCartItem d1 (ci_id existing) qty
                   in (Inr (), d2, updateCartItemsCount d2 e (c_id cart))))"

text \<open>The rows of a (cart, product) pair.\<close>

definition cartItemsFor :: "db \<Rightarrow> int \<Rightarrow> int \<Rightarrow> cart_item_row list" where
  "cartItemsFor d cartID pid =
     filter (\<lambda>ci. ci_cart_id ci = cartID \<and> ci_product_id ci = pid) (cart_items d)"

section \<open>Product service: the read-through cache\<close>

text \<open>
  \<^verbatim>\<open>models.Product\<close>, \<^verbatim>\<open>cachedProduct\<close> and the cache map. Instants and
  durations are integers counted in nanoseconds, as \<^verbatim>\<open>time.Duration\<close> is; the read
  of the clock is an argument. The lock around the map is not modelled: calls run one
  after the other.
\<close>

record Product =
  Product_ID :: int
  Product_Name :: string
  Product_Description :: string
  Product_Price :: int
  Product_Category :: string
  Product_SKU :: string

record cachedProduct =
  product :: Product
  expires :: int

type_synonym ProductCache = "int \<rightharpoonup> cachedProduct"

definition Minute :: int where
  "Minute = 60 * 1000000000"

definition NewProductCache :: ProductCache where
  "NewProductCache = Map.empty"

text \<open>
  The two halves of \<^verbatim>\<open>GetProduct\<close> that touch the map: the read under the read lock,
  \<^verbatim>\<open>exists && time.Now().Before(cached.expires)\<close>, and the write under the write
  lock with \<^verbatim>\<open>expires: time.Now().Add(5 * time.Minute)\<close>.
\<close>

definition cacheGet :: "ProductCache \<Rightarrow> int \<Rightarrow> int \<Rightarrow> Product option" where
  "cacheGet cache now pid =
     (case cache pid of
        None \<Rightarrow> None
      | Some cached \<Rightarrow> if now < expires cached then Some (product cached) else None)"

definition cachePut :: "ProductCache \<Rightarrow> int \<Rightarrow> int \<Rightarrow> Product \<Rightarrow> ProductCache" where
  "cachePut cache now pid p = cache(pid \<mapsto> \<lparr>product = p, expires = now + 5 * Minute\<rparr>)"

text \<open>
  The scan of a products row into \<^verbatim>\<open>models.Product\<close>: a NULL description or category
  does not scan into a Go string.
\<close>

definition scanProduct :: "product_row \<Rightarrow> Product option" where
  "scanProduct r =
     (case (p_description r, p_category r) of
        (Some descr, Some cat) \<Rightarrow>
          Some \<lparr>Product_ID = p_id r, Product_Name = p_name r, Product_Description = descr,
                Product_Price = p_price r, Product_Category = cat, Product_SKU = p_sku r\<rparr>
      | _ \<Rightarrow> None)"

text \<open>
  \<^verbatim>\<open>GetProduct\<close>, with the clock read at the cache check (\<open>now\<close>) and at the cache
  write (\<open>now'\<close>). The result is the returned value, the cache afterwards and the events.
\<close>

definition GetProduct ::
  "ProductCache \<Rightarrow> db \<Rightarrow> bool \<Rightarrow> int \<Rightarrow> int \<Rightarrow> int \<Rightarrow>
     (error + Product) \<times> ProductCache \<times> int event list" where
  "GetProduct cache d product_query_fails now now' pid =
     (case cacheGet cache now pid of
        Some p \<Rightarrow> (Inr p, cache, [CacheHits, ProductsViewed pid (Product_Category p)])
      | None \<Rightarrow>
          if product_query_fails then (Inl GetProductFailed, cache, [CacheMisses])
          else
            (case find (\<lambda>r. p_id r = pid) (products d) of
               None \<Rightarrow> (Inl ProductNotFound, cache, [CacheMisses])
             | Some r \<Rightarrow>
                 (case scanProduct r of
                    None \<Rightarrow> (Inl GetProductFailed, cache, [CacheMisses])
                  | Some p \<Rightarrow>
                      (Inr p, cachePut cache now' pid p,
                       [CacheMisses, ProductsViewed pid (Product_Category p)]))))"

section \<open>Notions used in the statements\<close>

text \<open>
  The category the catalog gives for a product id: that of the first products row with
  the id, nothing when there is no such row or its category is NULL.
\<close>

definition categoryOfProduct :: "db \<Rightarrow> int \<Rightarrow> string option" where
  "categoryOfProduct d pid =
     (case find (\<lambda>p. p_id p = pid) (products d) of
        None \<Rightarrow> None
      | Some p \<Rightarrow> p_category p)"


text \<open>
  The \<^verbatim>\<open>float64\<close> sum, taken in row order from the zero value, of price times
  quantity over the items of an order whose product has the given category. The price is
  the one stored with the order item.
\<close>

definition categorySum :: "'f float64_ops \<Rightarrow> db \<Rightarrow> int \<Rightarrow> string \<Rightarrow> 'f" where
  "categorySum F d orderID c =
     foldl (f_add F) (f_zero F)
       (map (\<lambda>oi. f_mul F (f_scan F (oi_price oi)) (f_of_int F (oi_quantity oi)))
          (filter (\<lambda>oi. categoryOfProduct d (oi_product_id oi) = Some c)
             (itemsOfOrder d orderID)))"


section \<open>Sample data\<close>

text \<open>
  User 7 owns cart 1, which holds two units of product 1 at 9.99; no order exists yet.
\<close>

definition demo_db :: db where
  "demo_db =
     \<lparr>products = [\<lparr>p_id = 1, p_name = ''Mouse'', p_description = Some ''Wireless mouse'',
                    p_price = 999, p_category = Some ''Electronics'', p_sku = ''MOU-001''\<rparr>],
      carts = [\<lparr>c_id = 1, c_user_id = 7\<rparr>],
      cart_items = [\<lparr>ci_id = 1, ci_cart_id = 1, ci_product_id = 1, ci_quantity = 2\<rparr>],
      orders = [], order_items = []\<rparr>"

definition no_faults :: create_env where
  "no_faults =
     \<lparr>begin_fails = False, cart_query_fails = False, cart_scan_fails = False,
      cat_query_fails = False, pool_products = products demo_db, order_insert_fails = False,
      last_insert_id_fails = False, item_insert_fails = (\<lambda>k. False), cart_id_fails = False,
      cart_delete_fails = False, commit_fails = False, get_order_fails = False,
      insert_time = 1000\<rparr>"

definition demo_order :: order_row where
  "demo_order =
     \<lparr>o_id = 1, o_user_id = 7, o_status = ''pending'', o_payment_method = ''paypal'',
      o_total_amount = 1998, o_currency = ''USD'', o_updated_at = 1000\<rparr>"

definition demo_order_item :: order_item_row where
  "demo_order_item =
     \<lparr>oi_id = 1, oi_order_id = 1, oi_product_id = 1, oi_quantity = 2, oi_price = 999\<rparr>"

definition demo_events :: "int event list" where
  "demo_events =
     [OrdersCreated 1 ''pending'' ''paypal'' ''Electronics'',
      RevenueTotal 1998 ''USD'' ''paypal'' ''Electronics'' ''pending'']"

text \<open>The sample store after the order of user 7 has been created.\<close>

definition demo_db_ordered :: db where
  "demo_db_ordered =
     demo_db\<lparr>cart_items := [], orders := [demo_order], order_items := [demo_order_item]\<rparr>"

text \<open>
  A sample arithmetic for the status update: amounts as exact integers in hundredths, a
  quantity as itself. The status updates of the samples run a minute after the order was
  inserted.
\<close>

definition exact_hundredths :: "int float64_ops" where
  "exact_hundredths =
     \<lparr>f_scan = (\<lambda>c. c), f_of_int = (\<lambda>q. q), f_mul = (\<lambda>x y. x * y), f_add = (\<lambda>x y. x + y),
      f_zero = 0\<rparr>"

definition status_ok :: "int status_env" where
  "status_ok =
     \<lparr>status_update_fails = False, rows_affected_fails = False,
      refetch_fails = False, item_query_fails = False,
      now_seconds = 1060, float64 = exact_hundredths\<rparr>"

definition demo_product :: Product where
  "demo_product =
     \<lparr>Product_ID = 1, Product_Name = ''Mouse'', Product_Description = ''Wireless mouse'',
      Product_Price = 999, Product_Category = ''Electronics'', Product_SKU = ''MOU-001''\<rparr>"

text \<open>A cart service whose store calls all succeed.\<close>

definition cart_ok :: cart_env where
  "cart_ok = \<lparr>cart_select_fails = False, cart_insert_fails = False, cart_last_id_fails = False,
     product_check_fails = False, item_check_fails = False, cart_item_insert_fails = False,
     cart_item_update_fails = False, count_query_fails = False, user_query_fails = False\<rparr>"

text \<open>The same store with the product's category NULL.\<close>

definition demo_db_uncategorised :: db where
  "demo_db_uncategorised =
     demo_db_ordered
       \<lparr>products := [\<lparr>p_id = 1, p_name = ''Mouse'', p_description = Some ''Wireless mouse'',
                       p_price = 999, p_category = None, p_sku = ''MOU-001''\<rparr>]\<rparr>"

text \<open>
  A store with one pending order of three items over two categories; its total is the
  sum over the items. The prices are binary fractions (9.50, 20.00, 80.25), on which
  \<^verbatim>\<open>float64\<close> sums and products are exact too.
\<close>

definition demo_db_mixed :: db where
  "demo_db_mixed =
     \<lparr>products =
        [\<lparr>p_id = 1, p_name = ''Mouse'', p_description = Some ''Wireless mouse'',
          p_price = 950, p_category = Some ''Electronics'', p_sku = ''MOU-001''\<rparr>,
         \<lparr>p_id = 2, p_name = ''T-Shirt'', p_description = Some ''Cotton t-shirt'',
          p_price = 2000, p_category = Some ''Clothing'', p_sku = ''TSH-001''\<rparr>,
         \<lparr>p_id = 3, p_name = ''Keyboard'', p_description = Some ''Mechanical keyboard'',
          p_price = 8025, p_category = Some ''Electronics'', p_sku = ''KEY-001''\<rparr>],
      carts = [\<lparr>c_id = 1, c_user_id = 7\<rparr>],
      cart_items = [],
      orders =
        [\<lparr>o_id = 1, o_user_id = 7, o_status = ''pending'', o_payment_method = ''paypal'',
          o_total_amount = 11925, o_currency = ''USD'', o_updated_at = 1000\<rparr>],
      order_items =
        [\<lparr>oi_id = 1, oi_order_id = 1, oi_product_id = 1, oi_quantity = 2, oi_price = 950\<rparr>,
         \<lparr>oi_id = 2, oi_order_id = 1, oi_product_id = 2, oi_quantity = 1, oi_price = 2000\<rparr>,
         \<lparr>oi_id = 3, oi_order_id = 1, oi_product_id = 3, oi_quantity = 1, oi_price = 8025\<rparr>]\<rparr>"

definition demo_events_mixed :: "int event list" where
  "demo_events_mixed =
     [OrdersCreated 2 ''completed'' ''paypal'' ''Electronics'',
      RevenueTotal 9925 ''USD'' ''paypal'' ''Electronics'' ''completed'',
      OrdersCreated 1 ''completed'' ''paypal'' ''Clothing'',
      RevenueTotal 2000 ''USD'' ''paypal'' ''Clothing'' ''completed'']"

section \<open>Basic facts\<close>

lemmas demo_defs = demo_db_def no_faults_def demo_order_def demo_order_item_def demo_events_def

lemmas create_defs = CreateOrder_def cartQuery_def totalAmount_def categoryMap_def catQuery_def
  categoryOf_def withCategory_def newOrderID_def insertOrder_def insertOrderItem_def
  clearCart_def GetOrder_def auto_increment_def recordCreated_def categoryOrders_def
  categoryRevenue_def valueAt_def

lemma foldl_add_acc:
  "foldl (\<lambda>acc x. acc + f x) a xs = (a::int) + sum_list (map f xs)"
  by (induction xs arbitrary: a) simp_all

lemma totalAmount_sum_list:
  "totalAmount items = (\<Sum>it\<leftarrow>items. Price it * Quantity it)"
  unfolding totalAmount_def by (simp add: foldl_add_acc)

lemma fold_max_ge: "(a::int) \<le> fold max ids a"
  by (induction ids arbitrary: a) (auto intro: order_trans [OF max.cobounded2])

lemma fold_max_mem: "x \<in> set ids \<Longrightarrow> (x::int) \<le> fold max ids a"
proof (induction ids arbitrary: a)
  case Nil
  then show ?case by simp
next
  case (Cons y ys)
  show ?case
  proof (cases "x = y")
    case True
    have "y \<le> max y a" by simp
    also have "\<dots> \<le> fold max ys (max y a)" by (rule fold_max_ge)
    finally show ?thesis using True by simp
  next
    case False
    with Cons show ?thesis by simp
  qed
qed

lemma auto_increment_fresh: "auto_increment ids \<notin> set ids"
  using fold_max_mem [of "auto_increment ids" ids 0] by (auto simp: auto_increment_def)

lemma find_append_fresh:
  "\<forall>x\<in>set xs. \<not> P x \<Longrightarrow> P y \<Longrightarrow> find P (xs @ [y]) = Some y"
  by (induction xs) auto

section \<open>CreateOrder: the transaction\<close>

lemma insertOrderItems_Some:
  "insertOrderItems fl k oid items t = Some t2 \<Longrightarrow>
     products t2 = products t \<and> carts t2 = carts t \<and> cart_items t2 = cart_items t \<and>
     orders t2 = orders t \<and>
     (\<exists>news. order_items t2 = order_items t @ news \<and>
        map (\<lambda>r. (oi_order_id r, oi_product_id r, oi_quantity r, oi_price r)) news =
        map (\<lambda>it. (oid, ProductID it, Quantity it, Price it)) items)"
proof (induction items arbitrary: k t)
  case Nil
  then show ?case by simp
next
  case (Cons it items)
  from Cons.prems have
    rec: "insertOrderItems fl (Suc k) oid items (insertOrderItem t oid it) = Some t2"
    by (auto split: if_splits)
  from Cons.IH [OF rec] show ?case
    by (auto simp: insertOrderItem_def)
qed

lemma insertOrderItems_no_fault:
  "\<forall>k. \<not> fl k \<Longrightarrow> \<exists>t2. insertOrderItems fl k oid items t = Some t2"
  by (induction items arbitrary: k t) simp_all

lemma clearCart_keeps:
  "products (clearCart e t u) = products t \<and> carts (clearCart e t u) = carts t \<and>
   orders (clearCart e t u) = orders t \<and> order_items (clearCart e t u) = order_items t"
  by (simp add: clearCart_def split: option.splits)

lemma cartQuery_empty:
  "userCartItems d userID = [] \<Longrightarrow> cartQuery d userID = []"
  unfolding userCartItems_def cartQuery_def
  by (auto simp: filter_empty_conv)

lemma GetOrder_new:
  "\<not> fails \<Longrightarrow> orders t = orders d @ [ord] \<Longrightarrow> o_id ord = newOrderID d \<Longrightarrow>
     GetOrder t fails (newOrderID d) = Inr ord"
proof -
  assume nf: "\<not> fails" and ot: "orders t = orders d @ [ord]" and oid: "o_id ord = newOrderID d"
  have fresh: "newOrderID d \<notin> set (map o_id (orders d))"
    unfolding newOrderID_def by (rule auto_increment_fresh)
  have "find (\<lambda>x. o_id x = newOrderID d) (orders d @ [ord]) = Some ord"
  proof (rule find_append_fresh)
    show "\<forall>x\<in>set (orders d). \<not> o_id x = newOrderID d" using fresh by force
  qed (rule oid)
  with nf ot show ?thesis by (simp add: GetOrder_def)
qed

text \<open>
  What a run that returns an order has done: the store gained exactly the returned order
  and one order item per line of the cart snapshot.
\<close>

lemma CreateOrder_Inr:
  assumes "CreateOrder d e userID pm cur = (Inr ord, d', evs)"
  shows "cartQuery d userID \<noteq> [] \<and>
         products d' = products d \<and> carts d' = carts d \<and>
         orders d' = orders d @ [ord] \<and>
         o_id ord = newOrderID d \<and>
         o_user_id ord = userID \<and> o_status ord = ''pending'' \<and>
         o_payment_method ord = pm \<and> o_currency ord = cur \<and>
         o_total_amount ord = (\<Sum>it\<leftarrow>cartQuery d userID. Price it * Quantity it) \<and>
         (\<exists>news. order_items d' = order_items d @ news \<and>
            map (\<lambda>r. (oi_order_id r, oi_product_id r, oi_quantity r, oi_price r)) news =
            map (\<lambda>it. (o_id ord, ProductID it, Quantity it, Price it)) (cartQuery d userID))"
proof -
  let ?items = "cartQuery d userID"
  let ?t1 = "insertOrder d userID pm (totalAmount ?items) cur (insert_time e)"
  let ?new = "\<lparr>o_id = newOrderID d, o_user_id = userID, o_status = ''pending'',
            o_payment_method = pm, o_total_amount = totalAmount ?items,
            o_currency = cur, o_updated_at = insert_time e\<rparr>"
  from assms have ne: "?items \<noteq> []"
    by (auto simp: CreateOrder_def Let_def split: if_splits option.splits sum.splits)
  from assms ne obtain t2 where
    t2: "insertOrderItems (item_insert_fails e) 0 (newOrderID d) ?items ?t1 = Some t2"
    and d': "d' = clearCart e t2 userID"
    and get: "GetOrder (clearCart e t2 userID) (get_order_fails e) (newOrderID d) = Inr ord"
    by (auto simp: CreateOrder_def Let_def split: if_splits option.splits sum.splits)
  from insertOrderItems_Some [OF t2] obtain news where
    k2: "products t2 = products ?t1" "carts t2 = carts ?t1"
    and o2: "orders t2 = orders ?t1"
    and i2: "order_items t2 = order_items ?t1 @ news"
    and m2: "map (\<lambda>r. (oi_order_id r, oi_product_id r, oi_quantity r, oi_price r)) news =
        map (\<lambda>it. (newOrderID d, ProductID it, Quantity it, Price it)) ?items"
    by blast
  have kd': "products d' = products d" "carts d' = carts d"
    using d' k2 clearCart_keeps [of e t2 userID] by (simp_all add: insertOrder_def)
  have od': "orders d' = orders d @ [?new]"
    using d' o2 clearCart_keeps [of e t2 userID] by (simp add: insertOrder_def)
  have id': "order_items d' = order_items d @ news"
    using d' i2 clearCart_keeps [of e t2 userID] by (simp add: insertOrder_def)
  from get have nf: "\<not> get_order_fails e"
    by (auto simp: GetOrder_def split: if_splits)
  have "GetOrder d' (get_order_fails e) (newOrderID d) = Inr ?new"
    by (rule GetOrder_new [OF nf od']) simp
  with get d' have ord: "ord = ?new" by simp
  show ?thesis
    using ne kd' od' id' ord m2
    by (auto simp: totalAmount_sum_list)
qed

text \<open>
  Without a store error on the way, a cart with at least one line does give an order.
\<close>

lemma CreateOrder_returns:
  assumes "cartQuery d userID \<noteq> []"
    and "\<not> begin_fails e" "\<not> cart_query_fails e" "\<not> cart_scan_fails e"
    and "\<not> order_insert_fails e" "\<not> last_insert_id_fails e"
    and "\<forall>k. \<not> item_insert_fails e k"
    and "\<not> commit_fails e" "\<not> get_order_fails e"
  shows "\<exists>ord d' evs. CreateOrder d e userID pm cur = (Inr ord, d', evs)"
proof -
  let ?items = "cartQuery d userID"
  let ?t1 = "insertOrder d userID pm (totalAmount ?items) cur (insert_time e)"
  let ?new = "\<lparr>o_id = newOrderID d, o_user_id = userID, o_status = ''pending'',
            o_payment_method = pm, o_total_amount = totalAmount ?items,
            o_currency = cur, o_updated_at = insert_time e\<rparr>"
  from insertOrderItems_no_fault [OF assms(7)] obtain t2 where
    t2: "insertOrderItems (item_insert_fails e) 0 (newOrderID d) ?items ?t1 = Some t2"
    by blast
  from insertOrderItems_Some [OF t2] have "orders t2 = orders d @ [?new]"
    by (simp add: insertOrder_def)
  then have o3: "orders (clearCart e t2 userID) = orders d @ [?new]"
    using clearCart_keeps [of e t2 userID] by simp
  have "GetOrder (clearCart e t2 userID) (get_order_fails e) (newOrderID d) = Inr ?new"
    by (rule GetOrder_new [OF assms(9) o3]) simp
  with t2 assms show ?thesis
    by (simp add: CreateOrder_def Let_def)
qed

text \<open>
  Every error return before the commit leaves the store as it was and emits nothing. The
  two errors of the re-read after the commit are the exception.
\<close>

lemma CreateOrder_rollback:
  assumes "fst (CreateOrder d e userID pm cur) = Inl err"
    and "err \<noteq> OrderNotFound" and "err \<noteq> GetOrderFailed"
  shows "snd (CreateOrder d e userID pm cur) = (d, [])"
  using assms
  by (auto simp: CreateOrder_def Let_def GetOrder_def split: if_splits option.splits sum.splits)

text \<open>
  When the cart lookup and the delete both succeed and the user's carts share one
  identifier, the cart clear leaves the user without cart items.
\<close>

lemma clearCart_empties:
  assumes "\<not> cart_id_fails e" "\<not> cart_delete_fails e"
    and one: "\<forall>c\<in>set (carts t). \<forall>c'\<in>set (carts t).
            c_user_id c = userID \<and> c_user_id c' = userID \<longrightarrow> c_id c = c_id c'"
  shows "userCartItems (clearCart e t userID) userID = []"
proof (cases "find (\<lambda>c. c_user_id c = userID) (carts t)")
  case None
  then have "\<forall>c\<in>set (carts t). c_user_id c \<noteq> userID"
    by (simp add: find_None_iff)
  with None assms show ?thesis
    by (auto simp: clearCart_def userCartItems_def filter_empty_conv)
next
  case (Some c0)
  then have c0: "c0 \<in> set (carts t)" "c_user_id c0 = userID"
    by (auto simp: find_Some_iff in_set_conv_nth)
  with one have "\<forall>c\<in>set (carts t). c_user_id c = userID \<longrightarrow> c_id c = c_id c0"
    by blast
  with Some assms(1,2) show ?thesis
    by (auto simp: clearCart_def userCartItems_def filter_empty_conv)
qed

text \<open>
  A run that returns an order, with the cart lookup and the delete succeeding and the
  user's carts sharing one id, leaves the user without cart items and keeps the carts.
\<close>

lemma CreateOrder_clears_cart:
  assumes run: "CreateOrder d e userID pm cur = (Inr ord, d', evs)"
    and nf: "\<not> cart_id_fails e" "\<not> cart_delete_fails e"
    and one: "\<forall>c\<in>set (carts d). \<forall>c'\<in>set (carts d).
            c_user_id c = userID \<and> c_user_id c' = userID \<longrightarrow> c_id c = c_id c'"
  shows "userCartItems d' userID = [] \<and> carts d' = carts d"
proof -
  let ?items = "cartQuery d userID"
  let ?t1 = "insertOrder d userID pm (totalAmount ?items) cur (insert_time e)"
  from run have ne: "?items \<noteq> []"
    by (auto simp: CreateOrder_def Let_def split: if_splits option.splits sum.splits)
  from run ne obtain t2 where
    t2: "insertOrderItems (item_insert_fails e) 0 (newOrderID d) ?items ?t1 = Some t2"
    and d': "d' = clearCart e t2 userID"
    by (auto simp: CreateOrder_def Let_def split: if_splits option.splits sum.splits)
  from insertOrderItems_Some [OF t2] have c2: "carts t2 = carts d"
    by (simp add: insertOrder_def)
  from one have "\<forall>c\<in>set (carts t2). \<forall>c'\<in>set (carts t2).
            c_user_id c = userID \<and> c_user_id c' = userID \<longrightarrow> c_id c = c_id c'"
    unfolding c2 .
  from clearCart_empties [OF nf this] have "userCartItems d' userID = []"
    unfolding d' .
  moreover have "carts d' = carts d"
    unfolding d' using clearCart_keeps [of e t2 userID] c2 by simp
  ultimately show ?thesis by simp
qed

lemma demo_run:
  "CreateOrder demo_db no_faults 7 ''paypal'' ''USD'' =
     (Inr demo_order,
      demo_db\<lparr>cart_items := [], orders := [demo_order], order_items := [demo_order_item]\<rparr>,
      demo_events)"
  by (simp add: demo_defs create_defs)

text \<open>
  C1. A store error in the cart clear of step 6 does not abort \<^verbatim>\<open>CreateOrder\<close>: with
  the delete of the cart items failing, the run on the sample store commits, returns the
  order without an error, and leaves the order and its item persisted next to the
  uncleared cart.
\<close>

theorem CreateOrder_commits_after_failed_cart_delete:
  "CreateOrder demo_db (no_faults\<lparr>cart_delete_fails := True\<rparr>) 7 ''paypal'' ''USD'' =
     (Inr demo_order,
      demo_db\<lparr>orders := [demo_order], order_items := [demo_order_item]\<rparr>,
      demo_events)"
  by (simp add: demo_defs create_defs)

text \<open>
  C2. For a user whose cart has no items, \<^verbatim>\<open>CreateOrder\<close> (the transaction begun
  and the cart read without a store error) returns the empty-cart error, leaves every
  table as it was and emits nothing.
\<close>

theorem CreateOrder_empty_cart:
  assumes "userCartItems d userID = []"
    and "\<not> begin_fails e" and "\<not> cart_query_fails e"
  shows "CreateOrder d e userID paymentMethod currency = (Inl EmptyCart, d, [])"
  using cartQuery_empty [OF assms(1)] assms(2,3) by (simp add: CreateOrder_def)

theorem CreateOrder_empty_cart_witness:
  "userCartItems (demo_db\<lparr>cart_items := []\<rparr>) 7 = [] \<and>
   \<not> begin_fails no_faults \<and> \<not> cart_query_fails no_faults \<and>
   CreateOrder (demo_db\<lparr>cart_items := []\<rparr>) no_faults 7 ''paypal'' ''USD'' =
     (Inl EmptyCart, demo_db\<lparr>cart_items := []\<rparr>, [])"
proof -
  have h1: "userCartItems (demo_db\<lparr>cart_items := []\<rparr>) 7 = []"
    by (simp add: userCartItems_def)
  have h2: "\<not> begin_fails no_faults" and h3: "\<not> cart_query_fails no_faults"
    by (simp_all add: no_faults_def)
  from CreateOrder_empty_cart [OF h1 h2 h3, of "''paypal''" "''USD''"] h1 h2 h3
  show ?thesis by simp
qed

text \<open>
  C3. A \<^verbatim>\<open>CreateOrder\<close> that returns an order has run on a cart snapshot of
  \<open>N \<ge> 1\<close> lines and has added to the store exactly one order, the returned one, and
  exactly \<open>N\<close> order items, one per snapshot line in snapshot order, each with the new
  order's id and the line's product, quantity and unit price; the order's total amount is
  the sum of price times quantity over the snapshot.
\<close>

theorem CreateOrder_one_order_N_items:
  assumes "CreateOrder d e userID paymentMethod currency = (Inr ord, d', evs)"
  shows "1 \<le> length (cartQuery d userID) \<and>
         orders d' = orders d @ [ord] \<and>
         o_total_amount ord = (\<Sum>it\<leftarrow>cartQuery d userID. Price it * Quantity it) \<and>
         (\<exists>news. order_items d' = order_items d @ news \<and>
            length news = length (cartQuery d userID) \<and>
            map (\<lambda>r. (oi_order_id r, oi_product_id r, oi_quantity r, oi_price r)) news =
            map (\<lambda>it. (o_id ord, ProductID it, Quantity it, Price it)) (cartQuery d userID))"
proof -
  from CreateOrder_Inr [OF assms] obtain news where
    ne: "cartQuery d userID \<noteq> []"
    and od: "orders d' = orders d @ [ord]"
    and tot: "o_total_amount ord = (\<Sum>it\<leftarrow>cartQuery d userID. Price it * Quantity it)"
    and oi: "order_items d' = order_items d @ news"
    and m: "map (\<lambda>r. (oi_order_id r, oi_product_id r, oi_quantity r, oi_price r)) news =
            map (\<lambda>it. (o_id ord, ProductID it, Quantity it, Price it)) (cartQuery d userID)"
    by blast
  have len: "length news = length (cartQuery d userID)"
    using arg_cong [OF m, of length] by simp
  from ne have "1 \<le> length (cartQuery d userID)"
    by (cases "cartQuery d userID") simp_all
  with od tot oi m len show ?thesis by blast
qed

theorem CreateOrder_one_order_N_items_witness:
  "CreateOrder demo_db no_faults 7 ''paypal'' ''USD'' =
     (Inr demo_order,
      demo_db\<lparr>cart_items := [], orders := [demo_order], order_items := [demo_order_item]\<rparr>,
      demo_events) \<and>
   cartQuery demo_db 7 = [\<lparr>ProductID = 1, Quantity = 2, Price = 999\<rparr>] \<and>
   o_total_amount demo_order = (\<Sum>it\<leftarrow>cartQuery demo_db 7. Price it * Quantity it)"
proof -
  from CreateOrder_one_order_N_items [OF demo_run]
  have "o_total_amount demo_order = (\<Sum>it\<leftarrow>cartQuery demo_db 7. Price it * Quantity it)"
    by blast
  moreover have "cartQuery demo_db 7 = [\<lparr>ProductID = 1, Quantity = 2, Price = 999\<rparr>]"
    by (simp add: cartQuery_def demo_db_def)
  ultimately show ?thesis using demo_run by simp
qed

text \<open>
  C4. A \<^verbatim>\<open>CreateOrder\<close> that returns an order can leave the user's cart full: with
  the lookup of the cart id failing, the run on the sample store returns the order without
  an error while the cart still holds its item.
\<close>

theorem CreateOrder_success_with_cart_not_cleared:
  "fst (CreateOrder demo_db (no_faults\<lparr>cart_id_fails := True\<rparr>) 7 ''paypal'' ''USD'') =
     Inr demo_order \<and>
   cart_items (fst (snd
     (CreateOrder demo_db (no_faults\<lparr>cart_id_fails := True\<rparr>) 7 ''paypal'' ''USD''))) =
     [\<lparr>ci_id = 1, ci_cart_id = 1, ci_product_id = 1, ci_quantity = 2\<rparr>]"
  by (simp add: demo_defs create_defs)

section \<open>UpdateOrderStatus: validation\<close>

lemma isValidStatus_known:
  "status \<in> {''pending'', ''processing'', ''completed'', ''cancelled'', ''shipped'',
      ''delivered''} \<Longrightarrow> isValidStatus status"
  by (elim insertE emptyE) (simp_all add: isValidStatus_def validStatuses_def)

lemma isValidStatus_unknown:
  assumes "status \<notin> {''pending'', ''processing'', ''completed'', ''cancelled'', ''shipped'',
      ''delivered''}"
  shows "\<not> isValidStatus status"
proof -
  from assms have "status \<noteq> ''pending''" "status \<noteq> ''processing''"
    "status \<noteq> ''completed''" "status \<noteq> ''cancelled''" "status \<noteq> ''shipped''"
    "status \<noteq> ''delivered''"
    by (simp_all only: insert_iff empty_iff de_Morgan_disj simp_thms)
  then show ?thesis
    by (simp add: isValidStatus_def validStatuses_def)
qed

lemma rowsAffected_changed:
  "ord \<in> set (orders d) \<Longrightarrow> o_id ord = orderID \<Longrightarrow>
   \<not> (o_status ord = status \<and> o_updated_at ord = now) \<Longrightarrow>
   rowsAffected d orderID status now \<noteq> 0"
  by (auto simp: rowsAffected_def filter_empty_conv)

text \<open>
  C5. For a status string that is none of the six labels, \<^verbatim>\<open>UpdateOrderStatus\<close>
  returns the invalid-status error, leaves the store (and so the order's status) as it
  was and emits nothing, whatever the store calls would have done.
\<close>

theorem UpdateOrderStatus_invalid_status:
  assumes "status \<notin> {''pending'', ''processing'', ''completed'', ''cancelled'', ''shipped'',
      ''delivered''}"
  shows "UpdateOrderStatus d e orderID status = (Inl (InvalidStatus status), d, [])"
  using isValidStatus_unknown [OF assms] by (simp add: UpdateOrderStatus_def)

theorem UpdateOrderStatus_invalid_status_witness:
  "''refunded'' \<notin> {''pending'', ''processing'', ''completed'', ''cancelled'', ''shipped'',
      ''delivered''} \<and>
   UpdateOrderStatus demo_db_ordered status_ok 1 ''refunded'' =
     (Inl (InvalidStatus ''refunded''), demo_db_ordered, [])"
proof -
  have h: "''refunded'' \<notin> {''pending'', ''processing'', ''completed'', ''cancelled'',
      ''shipped'', ''delivered''}"
    by simp
  from h UpdateOrderStatus_invalid_status [OF h] show ?thesis by (rule conjI)
qed

text \<open>
  For an order that exists and any of the six labels, \<^verbatim>\<open>UpdateOrderStatus\<close> (the
  update and the affected-row count read without a store error) succeeds and writes the
  label whenever the statement changes the row: the label differs from the stored status,
  or the second of the update differs from the stored \<^verbatim>\<open>updated_at\<close>. No other look
  at the current status is taken.
\<close>

lemma UpdateOrderStatus_succeeds_when_row_changes:
  assumes "status \<in> {''pending'', ''processing'', ''completed'', ''cancelled'', ''shipped'',
      ''delivered''}"
    and "ord \<in> set (orders d)" and "o_id ord = orderID"
    and "\<not> (o_status ord = status \<and> o_updated_at ord = now_seconds e)"
    and "\<not> status_update_fails e" and "\<not> rows_affected_fails e"
  shows "fst (UpdateOrderStatus d e orderID status) = Inr () \<and>
         fst (snd (UpdateOrderStatus d e orderID status)) =
           updateStatus d orderID status (now_seconds e)"
  using isValidStatus_known [OF assms(1)] assms(5,6) rowsAffected_changed [OF assms(2,3,4)]
  by (simp add: UpdateOrderStatus_def Let_def split: sum.splits)

text \<open>The sample order goes from pending to shipped and back to pending.\<close>

lemma demo_shipped_then_pending:
  "fst (UpdateOrderStatus demo_db_ordered status_ok 1 ''shipped'') = Inr () \<and>
   map o_status (orders (updateStatus demo_db_ordered 1 ''shipped'' 1060)) = [''shipped''] \<and>
   fst (UpdateOrderStatus (updateStatus demo_db_ordered 1 ''shipped'' 1060) status_ok 1
     ''pending'') = Inr ()"
proof -
  have e: "\<not> status_update_fails status_ok" "\<not> rows_affected_fails status_ok"
    by (simp_all add: status_ok_def)
  have o1: "demo_order \<in> set (orders demo_db_ordered)" "o_id demo_order = 1"
    "\<not> (o_status demo_order = ''shipped'' \<and> o_updated_at demo_order = now_seconds status_ok)"
    by (simp_all add: demo_db_ordered_def demo_order_def)
  have o2: "demo_order\<lparr>o_status := ''shipped'', o_updated_at := 1060\<rparr>
              \<in> set (orders (updateStatus demo_db_ordered 1 ''shipped'' 1060))"
    "o_id (demo_order\<lparr>o_status := ''shipped'', o_updated_at := 1060\<rparr>) = 1"
    "\<not> (o_status (demo_order\<lparr>o_status := ''shipped'', o_updated_at := 1060\<rparr>) = ''pending'' \<and>
        o_updated_at (demo_order\<lparr>o_status := ''shipped'', o_updated_at := 1060\<rparr>) =
          now_seconds status_ok)"
    by (simp_all add: demo_db_ordered_def demo_order_def updateStatus_def)
  have s: "map o_status (orders (updateStatus demo_db_ordered 1 ''shipped'' 1060)) =
      [''shipped'']"
    by (simp add: demo_db_ordered_def demo_order_def updateStatus_def)
  from UpdateOrderStatus_succeeds_when_row_changes [OF _ o1 e]
       UpdateOrderStatus_succeeds_when_row_changes [OF _ o2 e] s
  show ?thesis by simp
qed

text \<open>
  C6. \<^verbatim>\<open>UpdateOrderStatus\<close> does not succeed for every existing order and every valid
  label: the sample order exists and is pending, and setting it to \<^verbatim>\<open>"pending"\<close> in
  the second of its last write changes no row, so the affected-row count is zero and the
  code returns the order-not-found error.
\<close>

theorem UpdateOrderStatus_existing_order_not_found:
  "orders demo_db_ordered = [demo_order] \<and>
   o_id demo_order = 1 \<and> o_status demo_order = ''pending'' \<and>
   o_updated_at demo_order = 1000 \<and>
   UpdateOrderStatus demo_db_ordered (status_ok\<lparr>now_seconds := 1000\<rparr>) 1 ''pending'' =
     (Inl OrderNotFound, demo_db_ordered, [])"
  by (simp add: demo_db_ordered_def demo_db_def demo_order_def status_ok_def
      UpdateOrderStatus_def isValidStatus_def validStatuses_def updateStatus_def
      rowsAffected_def)

section \<open>The product cache\<close>

text \<open>A miss that loads the product from the store writes it to the cache.\<close>

lemma GetProduct_miss_puts:
  assumes "cacheGet cache now pid = None" and "\<not> fails"
    and "find (\<lambda>r. p_id r = pid) (products d) = Some r" and "scanProduct r = Some p"
  shows "GetProduct cache d fails now now' pid =
     (Inr p, cachePut cache now' pid p, [CacheMisses, ProductsViewed pid (Product_Category p)])"
  using assms by (simp add: GetProduct_def)

text \<open>
  C8. After product \<open>p\<close> has been put under \<open>pid\<close> at instant \<open>now\<close>, a
  \<^verbatim>\<open>GetProduct\<close> whose clock reads less than \<open>now\<close> plus five minutes is a hit:
  it returns \<open>p\<close> from the cache, whatever the store holds, and leaves the cache as it
  is. One whose clock reads \<open>now\<close> plus five minutes or more finds no usable entry and
  signals a miss, though the entry was never removed.
\<close>

theorem cache_hit_within_ttl_miss_after:
  "(t < now + 5 * Minute \<longrightarrow>
      GetProduct (cachePut cache now pid p) d fails t t' pid =
        (Inr p, cachePut cache now pid p,
         [CacheHits, ProductsViewed pid (Product_Category p)])) \<and>
   (now + 5 * Minute \<le> t \<longrightarrow>
      cacheGet (cachePut cache now pid p) t pid = None \<and>
      hd (snd (snd (GetProduct (cachePut cache now pid p) d fails t t' pid))) = CacheMisses)"
  by (auto simp: GetProduct_def cacheGet_def cachePut_def split: option.splits)

theorem cache_hit_within_ttl_miss_after_witness:
  "GetProduct (cachePut NewProductCache 0 1 demo_product) demo_db False (5 * Minute - 1)
      (5 * Minute) 1 =
     (Inr demo_product, cachePut NewProductCache 0 1 demo_product,
      [CacheHits, ProductsViewed 1 ''Electronics'']) \<and>
   cacheGet (cachePut NewProductCache 0 1 demo_product) (5 * Minute) 1 = None \<and>
   hd (snd (snd (GetProduct (cachePut NewProductCache 0 1 demo_product) demo_db False
      (5 * Minute) (5 * Minute) 1))) = CacheMisses"
  using cache_hit_within_ttl_miss_after
          [of "5 * Minute - 1" 0 NewProductCache 1 demo_product demo_db False "5 * Minute"]
        cache_hit_within_ttl_miss_after
          [of "5 * Minute" 0 NewProductCache 1 demo_product demo_db False "5 * Minute"]
  by (simp add: demo_product_def)

section \<open>AddToCart\<close>

lemmas cart_defs = AddToCart_def GetOrCreateCart_def insertCartItem_def updateCartItem_def
  updateCartItemsCount_def auto_increment_def cartItemsFor_def


lemma GetOrCreateCart_keeps:
  "GetOrCreateCart d e userID = (rc, d1) \<Longrightarrow>
     cart_items d1 = cart_items d \<and> products d1 = products d"
  by (auto simp: GetOrCreateCart_def Let_def split: if_splits option.splits)

lemma find_filter_Cons: "filter P xs = x # ys \<Longrightarrow> find P xs = Some x"
  by (induction xs) (auto split: if_splits)

lemma find_filter_Nil: "filter P xs = [] \<Longrightarrow> find P xs = None"
  by (induction xs) (auto split: if_splits)

lemma cartItemsFor_update:
  "cartItemsFor (updateCartItem d1 i qty) cid pid =
     map (\<lambda>ci. if ci_id ci = i then ci\<lparr>ci_quantity := ci_quantity ci + qty\<rparr> else ci)
       (cartItemsFor d1 cid pid)"
  unfolding cartItemsFor_def updateCartItem_def
  by (simp add: filter_map comp_def if_distrib cong: if_cong)

lemma cartItemsFor_insert:
  "cartItemsFor (insertCartItem d1 cid pid qty) cid pid =
     cartItemsFor d1 cid pid @
       [\<lparr>ci_id = auto_increment (map ci_id (cart_items d1)), ci_cart_id = cid,
         ci_product_id = pid, ci_quantity = qty\<rparr>]"
  by (simp add: cartItemsFor_def insertCartItem_def)

text \<open>
  C9 (as the code has it). With the user's cart \<open>cart\<close> got or created and no store
  error in the checks and the write: when the product exists and the cart holds one row
  \<open>row\<close> for it, \<^verbatim>\<open>AddToCart\<close> leaves exactly that one row for the (cart, product)
  pair, with the quantity raised by the added quantity, and inserts no row; when the
  product exists and the cart holds no row for it, exactly one new row with the added
  quantity is inserted; when the product does not exist, the product-not-found error is
  returned with no cart item written and no event emitted. The cart row itself may have
  been created before the product check.
\<close>

theorem AddToCart_upsert:
  assumes cart: "GetOrCreateCart d e userID = (Inr cart, d1)"
    and nf: "\<not> product_check_fails e" "\<not> item_check_fails e"
       "\<not> cart_item_insert_fails e" "\<not> cart_item_update_fails e"
    and run: "AddToCart d e userID pid qty = (r, d', evs)"
  shows "((\<exists>p\<in>set (products d). p_id p = pid) \<and> cartItemsFor d (c_id cart) pid = [row] \<longrightarrow>
            r = Inr () \<and>
            cartItemsFor d' (c_id cart) pid = [row\<lparr>ci_quantity := ci_quantity row + qty\<rparr>] \<and>
            length (cart_items d') = length (cart_items d)) \<and>
         ((\<exists>p\<in>set (products d). p_id p = pid) \<and> cartItemsFor d (c_id cart) pid = [] \<longrightarrow>
            r = Inr () \<and>
            cartItemsFor d' (c_id cart) pid =
              [\<lparr>ci_id = auto_increment (map ci_id (cart_items d)), ci_cart_id = c_id cart,
                ci_product_id = pid, ci_quantity = qty\<rparr>] \<and>
            length (cart_items d') = length (cart_items d) + 1) \<and>
         (\<not> (\<exists>p\<in>set (products d). p_id p = pid) \<longrightarrow>
            r = Inl ProductNotFound \<and> cart_items d' = cart_items d \<and> evs = [])"
proof -
  from GetOrCreateCart_keeps [OF cart]
  have k: "cart_items d1 = cart_items d" "products d1 = products d" by simp_all
  have f1: "cartItemsFor d1 (c_id cart) pid = cartItemsFor d (c_id cart) pid"
    by (simp add: cartItemsFor_def k)
  have a: "r = Inr () \<and>
            cartItemsFor d' (c_id cart) pid = [row\<lparr>ci_quantity := ci_quantity row + qty\<rparr>] \<and>
            length (cart_items d') = length (cart_items d)"
    if ex: "\<exists>p\<in>set (products d). p_id p = pid" and one: "cartItemsFor d (c_id cart) pid = [row]"
  proof -
    from one have fnd: "find (\<lambda>ci. ci_cart_id ci = c_id cart \<and> ci_product_id ci = pid)
        (cart_items d1) = Some row"
      unfolding cartItemsFor_def k by (rule find_filter_Cons)
    from run cart nf ex fnd have r: "r = Inr ()" and d': "d' = updateCartItem d1 (ci_id row) qty"
      by (auto simp: AddToCart_def k Let_def split: if_splits)
    have "cartItemsFor d' (c_id cart) pid = [row\<lparr>ci_quantity := ci_quantity row + qty\<rparr>]"
      unfolding d' cartItemsFor_update f1 one by simp
    moreover have "length (cart_items d') = length (cart_items d)"
      unfolding d' by (simp add: updateCartItem_def k)
    ultimately show ?thesis using r by simp
  qed
  have b: "r = Inr () \<and>
            cartItemsFor d' (c_id cart) pid =
              [\<lparr>ci_id = auto_increment (map ci_id (cart_items d)), ci_cart_id = c_id cart,
                ci_product_id = pid, ci_quantity = qty\<rparr>] \<and>
            length (cart_items d') = length (cart_items d) + 1"
    if ex: "\<exists>p\<in>set (products d). p_id p = pid" and none: "cartItemsFor d (c_id cart) pid = []"
  proof -
    from none have fnd: "find (\<lambda>ci. ci_cart_id ci = c_id cart \<and> ci_product_id ci = pid)
        (cart_items d1) = None"
      unfolding cartItemsFor_def k by (rule find_filter_Nil)
    from run cart nf ex fnd have r: "r = Inr ()"
      and d': "d' = insertCartItem d1 (c_id cart) pid qty"
      by (auto simp: AddToCart_def k Let_def split: if_splits)
    have "cartItemsFor d' (c_id cart) pid =
              [\<lparr>ci_id = auto_increment (map ci_id (cart_items d)), ci_cart_id = c_id cart,
                ci_product_id = pid, ci_quantity = qty\<rparr>]"
      unfolding d' cartItemsFor_insert f1 none by (simp add: k)
    moreover have "length (cart_items d') = length (cart_items d) + 1"
      unfolding d' by (simp add: insertCartItem_def k)
    ultimately show ?thesis using r by simp
  qed
  have c: "r = Inl ProductNotFound \<and> cart_items d' = cart_items d \<and> evs = []"
    if "\<not> (\<exists>p\<in>set (products d). p_id p = pid)"
    using run cart nf that k by (auto simp: AddToCart_def)
  from a b c show ?thesis by blast
qed

text \<open>
  C9, as stated, fails: for user 8, who has no cart yet, and product 99, which is not in
  the catalog, \<^verbatim>\<open>AddToCart\<close> returns product-not-found after a cart row for user 8
  has been written.
\<close>

theorem AddToCart_missing_product_creates_cart:
  "fst (AddToCart demo_db cart_ok 8 99 1) = Inl ProductNotFound \<and>
   carts (fst (snd (AddToCart demo_db cart_ok 8 99 1))) =
     [\<lparr>c_id = 1, c_user_id = 7\<rparr>, \<lparr>c_id = 2, c_user_id = 8\<rparr>] \<and>
   carts (fst (snd (AddToCart demo_db cart_ok 8 99 1))) \<noteq> carts demo_db"
  by (simp add: demo_db_def cart_ok_def cart_defs Let_def)


theorem AddToCart_upsert_witness:
  "fst (AddToCart demo_db cart_ok 7 1 3) = Inr () \<and>
   cartItemsFor (fst (snd (AddToCart demo_db cart_ok 7 1 3))) 1 1 =
     [\<lparr>ci_id = 1, ci_cart_id = 1, ci_product_id = 1, ci_quantity = 5\<rparr>] \<and>
   length (cart_items (fst (snd (AddToCart demo_db cart_ok 7 1 3)))) = 1 \<and>
   fst (AddToCart demo_db cart_ok 7 99 1) = Inl ProductNotFound \<and>
   cart_items (fst (snd (AddToCart demo_db cart_ok 7 99 1))) = cart_items demo_db"
proof -
  let ?row = "\<lparr>ci_id = 1, ci_cart_id = 1, ci_product_id = 1, ci_quantity = 2\<rparr>"
  have cart: "GetOrCreateCart demo_db cart_ok 7 = (Inr \<lparr>c_id = 1, c_user_id = 7\<rparr>, demo_db)"
    by (simp add: GetOrCreateCart_def demo_db_def cart_ok_def)
  have nf: "\<not> product_check_fails cart_ok" "\<not> item_check_fails cart_ok"
    "\<not> cart_item_insert_fails cart_ok" "\<not> cart_item_update_fails cart_ok"
    by (simp_all add: cart_ok_def)
  have run1: "AddToCart demo_db cart_ok 7 1 3 =
      (fst (AddToCart demo_db cart_ok 7 1 3), fst (snd (AddToCart demo_db cart_ok 7 1 3)),
       snd (snd (AddToCart demo_db cart_ok 7 1 3)))"
    by simp
  have run2: "AddToCart demo_db cart_ok 7 99 1 =
      (fst (AddToCart demo_db cart_ok 7 99 1), fst (snd (AddToCart demo_db cart_ok 7 99 1)),
       snd (snd (AddToCart demo_db cart_ok 7 99 1)))"
    by simp
  have p1: "\<exists>p\<in>set (products demo_db). p_id p = 1"
    and p99: "\<not> (\<exists>p\<in>set (products demo_db). p_id p = 99)"
    and row: "cartItemsFor demo_db (c_id \<lparr>c_id = 1, c_user_id = 7\<rparr>) 1 = [?row]"
    by (simp_all add: demo_db_def cartItemsFor_def)
  from AddToCart_upsert [OF cart nf run1, of ?row] p1 row
  have "fst (AddToCart demo_db cart_ok 7 1 3) = Inr () \<and>
   cartItemsFor (fst (snd (AddToCart demo_db cart_ok 7 1 3))) 1 1 =
     [\<lparr>ci_id = 1, ci_cart_id = 1, ci_product_id = 1, ci_quantity = 5\<rparr>] \<and>
   length (cart_items (fst (snd (AddToCart demo_db cart_ok 7 1 3)))) = 1"
    by (simp add: demo_db_def)
  moreover from AddToCart_upsert [OF cart nf run2, of ?row] p99
  have "fst (AddToCart demo_db cart_ok 7 99 1) = Inl ProductNotFound \<and>
   cart_items (fst (snd (AddToCart demo_db cart_ok 7 99 1))) = cart_items demo_db"
    by simp
  ultimately show ?thesis by simp
qed

section \<open>The category aggregate\<close>

lemma keys_addAt:
  "map fst (addAt k v m) = (if k \<in> set (map fst m) then map fst m else map fst m @ [k])"
  by (induction m) force+

lemma set_keys_addAt: "set (map fst (addAt k v m)) = insert k (set (map fst m))"
  unfolding keys_addAt by auto



lemma sum_addAt: "sum_list (map snd (addAt k v m)) = sum_list (map snd m) + v"
  by (induction m) auto

lemma keys_foldl_addAt:
  "map fst m = map fst m' \<Longrightarrow>
   map fst (foldl (\<lambda>m it. addAt (key it) (f it) m) m items) =
   map fst (foldl (\<lambda>m it. addAt (key it) (g it) m) m' items)"
  by (induction items arbitrary: m m') (simp_all add: keys_addAt)

lemma distinct_foldl_addAt:
  "distinct (map fst m) \<Longrightarrow>
   distinct (map fst (foldl (\<lambda>m it. addAt (key it) (f it) m) m items))"
  by (induction items arbitrary: m) (simp_all add: keys_addAt)

lemma set_foldl_addAt:
  "set (map fst (foldl (\<lambda>m it. addAt (key it) (f it) m) m items)) =
     set (map fst m) \<union> key ` set items"
  by (induction items arbitrary: m) (simp_all only: foldl.simps set_keys_addAt, auto)


lemma sum_foldl_addAt:
  "sum_list (map snd (foldl (\<lambda>m it. addAt (key it) (f it) m) m items)) =
     sum_list (map snd m) + (\<Sum>it\<leftarrow>items. f it)"
  by (induction items arbitrary: m) (simp_all add: sum_addAt)

lemma valueAt_keys:
  "distinct (map fst m) \<Longrightarrow> map (valueAt m) (map fst m) = map snd m"
proof (induction m)
  case Nil
  then show ?case by simp
next
  case (Cons kv m)
  obtain k v where kv: "kv = (k, v)" by (cases kv)
  from Cons.prems kv have nk: "k \<notin> fst ` set m" and dm: "distinct (map fst m)" by auto
  have "map (valueAt ((k, v) # m)) (map fst m) = map (valueAt m) (map fst m)"
    using nk by (auto simp: valueAt_def)
  with Cons.IH [OF dm] kv show ?case by (simp add: valueAt_def)
qed

lemma keys_orders_revenue:
  "map fst (categoryOrders items) = map fst (categoryRevenue items)"
  unfolding categoryOrders_def categoryRevenue_def
  by (rule keys_foldl_addAt) simp

lemma distinct_categoryOrders: "distinct (map fst (categoryOrders items))"
  unfolding categoryOrders_def by (rule distinct_foldl_addAt) simp




lemma sum_categoryRevenue:
  "(\<Sum>c\<leftarrow>map fst (categoryOrders items). valueAt (categoryRevenue items) c) =
     (\<Sum>it\<leftarrow>items. price it * quantity it)"
proof -
  have d: "distinct (map fst (categoryRevenue items))"
    unfolding categoryRevenue_def by (rule distinct_foldl_addAt) simp
  have "map (valueAt (categoryRevenue items)) (map fst (categoryOrders items)) =
        map snd (categoryRevenue items)"
    unfolding keys_orders_revenue by (rule valueAt_keys [OF d])
  then have "(\<Sum>c\<leftarrow>map fst (categoryOrders items). valueAt (categoryRevenue items) c) =
        sum_list (map snd (categoryRevenue items))"
    by simp
  also have "\<dots> = (\<Sum>it\<leftarrow>items. price it * quantity it)"
    unfolding categoryRevenue_def by (simp add: sum_foldl_addAt)
  finally show ?thesis .
qed


lemma revenueOf_pairs:
  "revenueOf (concat (map (\<lambda>(cat, orderCount).
        [OrdersCreated orderCount st pm cat, RevenueTotal (g cat) cur pm cat st']) xs)) =
   map (\<lambda>(cat, n). (cat, g cat, st')) xs"
  by (induction xs) auto


section \<open>CreateOrder: the category lookup\<close>









section \<open>UpdateOrderStatus: the completed emission\<close>

lemmas status_defs = UpdateOrderStatus_def isValidStatus_def validStatuses_def updateStatus_def
  rowsAffected_def GetOrder_def itemQuery_def recordCompleted_def completedOrders_def
  completedRevenue_def valueAt64_def rowCategory_def rowAmount_def exact_hundredths_def

lemma find_map_preserve:
  "(\<And>x. P (f x) = P x) \<Longrightarrow> find P (map f xs) = map_option f (find P xs)"
  by (induction xs) simp_all

lemma GetOrder_updateStatus:
  assumes "find (\<lambda>ord. o_id ord = orderID) (orders d) = Some ord" and "\<not> fails"
  shows "GetOrder (updateStatus d orderID status now) fails orderID =
           Inr (ord\<lparr>o_status := status, o_updated_at := now\<rparr>)"
proof -
  have "find (\<lambda>ord. o_id ord = orderID)
          (map (\<lambda>ord. if o_id ord = orderID
                      then ord\<lparr>o_status := status, o_updated_at := now\<rparr> else ord)
             (orders d))
        = map_option (\<lambda>ord. if o_id ord = orderID
                              then ord\<lparr>o_status := status, o_updated_at := now\<rparr> else ord)
            (find (\<lambda>ord. o_id ord = orderID) (orders d))"
    by (rule find_map_preserve) simp
  moreover from assms(1) have "o_id ord = orderID"
    by (auto simp: find_Some_iff)
  ultimately show ?thesis using assms
    by (simp add: GetOrder_def updateStatus_def)
qed

lemma itemQuery_updateStatus:
  "itemQuery (updateStatus d orderID status now) oid = itemQuery d oid"
  by (simp add: itemQuery_def updateStatus_def)

lemma concat_no_match:
  "\<forall>p\<in>set ps. key p \<noteq> a \<Longrightarrow> concat (map (\<lambda>p. if a = key p then g p else []) ps) = []"
  by (induction ps) auto

lemma concat_key_join:
  "distinct (map key ps) \<Longrightarrow>
   concat (map (\<lambda>p. if a = key p then g p else []) ps) =
     (case find (\<lambda>p. key p = a) ps of None \<Rightarrow> [] | Some p \<Rightarrow> g p)"
proof (induction ps)
  case Nil
  then show ?case by simp
next
  case (Cons p ps)
  show ?case
  proof (cases "key p = a")
    case True
    from Cons.prems have "key p \<notin> key ` set ps" by simp
    then have "\<forall>q\<in>set ps. key q \<noteq> key p" by (metis imageI)
    with True have "\<forall>q\<in>set ps. key q \<noteq> a" by simp
    from concat_no_match [OF this] True show ?thesis by simp
  next
    case False
    with Cons show ?thesis by auto
  qed
qed

lemma scanItems_append: "scanItems F (xs @ ys) = scanItems F xs @ scanItems F ys"
  by (induction F xs rule: scanItems.induct) simp_all

text \<open>The scanned rows of the item query, one per order item that has a category.\<close>

lemma scan_itemQuery:
  assumes "distinct (map p_id (products d))"
    and "\<forall>oi\<in>set (itemsOfOrder d orderID). categoryOfProduct d (oi_product_id oi) \<noteq> None"
  shows "scanItems F (itemQuery d orderID) =
     map (\<lambda>oi. (oi_product_id oi, oi_quantity oi, f_scan F (oi_price oi),
                the (categoryOfProduct d (oi_product_id oi))))
       (itemsOfOrder d orderID)"
proof -
  have row: "scanItems F (concat (map (\<lambda>p. if oi_product_id oi = p_id p
                 then (if oi_order_id oi = orderID
                       then [(oi_product_id oi, oi_quantity oi, oi_price oi, p_category p)]
                       else [])
                 else []) (products d))) =
      (if oi_order_id oi = orderID
       then [(oi_product_id oi, oi_quantity oi, f_scan F (oi_price oi),
              the (categoryOfProduct d (oi_product_id oi)))]
       else [])"
    if "oi_order_id oi = orderID \<longrightarrow> categoryOfProduct d (oi_product_id oi) \<noteq> None"
    for oi :: order_item_row
    using that unfolding concat_key_join [OF assms(1)]
    by (auto simp: categoryOfProduct_def split: option.splits)
  have gen: "\<forall>oi\<in>set ois. oi_order_id oi = orderID \<longrightarrow>
        categoryOfProduct d (oi_product_id oi) \<noteq> None \<Longrightarrow>
     scanItems F (concat (map (\<lambda>oi. concat (map (\<lambda>p. if oi_product_id oi = p_id p
                 then (if oi_order_id oi = orderID
                       then [(oi_product_id oi, oi_quantity oi, oi_price oi, p_category p)]
                       else [])
                 else []) (products d))) ois)) =
     map (\<lambda>oi. (oi_product_id oi, oi_quantity oi, f_scan F (oi_price oi),
                the (categoryOfProduct d (oi_product_id oi))))
       (filter (\<lambda>oi. oi_order_id oi = orderID) ois)"
    for ois :: "order_item_row list"
  proof (induction ois)
    case Nil
    then show ?case by simp
  next
    case (Cons oi ois)
    from Cons.prems have
      h: "oi_order_id oi = orderID \<longrightarrow> categoryOfProduct d (oi_product_id oi) \<noteq> None"
      and t: "\<forall>oi\<in>set ois. oi_order_id oi = orderID \<longrightarrow>
        categoryOfProduct d (oi_product_id oi) \<noteq> None"
      by simp_all
    from Cons.IH [OF t] row [OF h] show ?case
      by (simp add: scanItems_append)
  qed
  from assms(2) have "\<forall>oi\<in>set (order_items d). oi_order_id oi = orderID \<longrightarrow>
        categoryOfProduct d (oi_product_id oi) \<noteq> None"
    by (simp add: itemsOfOrder_def)
  from gen [OF this] show ?thesis
    by (simp add: itemQuery_def itemsOfOrder_def)
qed

lemma rowsAffected_found:
  "find (\<lambda>ord. o_id ord = orderID) (orders d) = Some ord \<Longrightarrow>
   \<not> (o_status ord = status \<and> o_updated_at ord = now) \<Longrightarrow>
   rowsAffected d orderID status now \<noteq> 0"
proof -
  assume f: "find (\<lambda>ord. o_id ord = orderID) (orders d) = Some ord"
    and ch: "\<not> (o_status ord = status \<and> o_updated_at ord = now)"
  from f have "ord \<in> set (orders d)" "o_id ord = orderID"
    by (auto simp: find_Some_iff intro: nth_mem)
  from rowsAffected_changed [OF this ch] show ?thesis .
qed

lemma UpdateOrderStatus_completed_events:
  assumes ord: "find (\<lambda>ord. o_id ord = orderID) (orders d) = Some ord"
    and ch: "\<not> (o_status ord = ''completed'' \<and> o_updated_at ord = now_seconds e)"
    and nf: "\<not> status_update_fails e" "\<not> rows_affected_fails e"
      "\<not> refetch_fails e" "\<not> item_query_fails e"
  shows "UpdateOrderStatus d e orderID ''completed'' =
     (Inr (), updateStatus d orderID ''completed'' (now_seconds e),
      recordCompleted (float64 e)
        (ord\<lparr>o_status := ''completed'', o_updated_at := now_seconds e\<rparr>)
        (scanItems (float64 e) (itemQuery d orderID)))"
proof -
  have v: "isValidStatus ''completed''"
    by (simp add: isValidStatus_def validStatuses_def)
  from rowsAffected_found [OF ord ch] v nf
    GetOrder_updateStatus [OF ord nf(3), of "''completed''" "now_seconds e"]
  show ?thesis
    by (simp add: UpdateOrderStatus_def Let_def itemQuery_updateStatus)
qed

text \<open>
  The revenue map after the loop: under each category the sum, in row order from the zero
  value, of the amounts of the rows of that category.
\<close>

lemma valueAt64_addAt64:
  "valueAt64 F (addAt64 F k v m) c =
     (if c = k then f_add F (valueAt64 F m c) v else valueAt64 F m c)"
  by (induction m) (auto simp: valueAt64_def)

lemma valueAt64_foldl:
  "valueAt64 F (foldl (\<lambda>m r. addAt64 F (rowCategory r) (rowAmount F r) m) m rows) c =
     foldl (f_add F) (valueAt64 F m c)
       (map (rowAmount F) (filter (\<lambda>r. rowCategory r = c) rows))"
  by (induction rows arbitrary: m) (simp_all add: valueAt64_addAt64)

lemma valueAt64_completedRevenue:
  "valueAt64 F (completedRevenue F rows) c =
     foldl (f_add F) (f_zero F) (map (rowAmount F) (filter (\<lambda>r. rowCategory r = c) rows))"
  unfolding completedRevenue_def valueAt64_foldl by (simp add: valueAt64_def)

lemma distinct_completedOrders: "distinct (map fst (completedOrders rows))"
  unfolding completedOrders_def by (rule distinct_foldl_addAt) simp

lemma set_completedOrders: "set (map fst (completedOrders rows)) = rowCategory ` set rows"
  unfolding completedOrders_def set_foldl_addAt by simp

lemma revenueOf_recordCompleted:
  "revenueOf (recordCompleted F ord rows) =
     map (\<lambda>c. (c, valueAt64 F (completedRevenue F rows) c, ''completed''))
       (map fst (completedOrders rows))"
  unfolding recordCompleted_def revenueOf_pairs
  by (simp add: case_prod_beta comp_def)

text \<open>
  C7 (as the code has it). For the order with the given id, when the update changes the
  row (the order is not already completed, or the second of the update differs from the
  stored \<^verbatim>\<open>updated_at\<close>), the status write, the re-read of the order and the item
  query return no store error, the products have distinct ids and every item of the order
  has a product with a category (not NULL), \<^verbatim>\<open>UpdateOrderStatus\<close> to
  \<^verbatim>\<open>"completed"\<close> succeeds and emits exactly one revenue event per distinct category
  among the order's items, each tagged \<^verbatim>\<open>completed\<close>. The amount of each is the
  \<^verbatim>\<open>float64\<close> sum of price times quantity over the order's items of that category,
  with the prices stored at order creation.
\<close>

theorem completed_emits_revenue_per_category:
  assumes ord: "find (\<lambda>ord. o_id ord = orderID) (orders d) = Some ord"
    and ch: "\<not> (o_status ord = ''completed'' \<and> o_updated_at ord = now_seconds e)"
    and nf: "\<not> status_update_fails e" "\<not> rows_affected_fails e"
      "\<not> refetch_fails e" "\<not> item_query_fails e"
    and pk: "distinct (map p_id (products d))"
    and cat: "\<forall>oi\<in>set (itemsOfOrder d orderID). categoryOfProduct d (oi_product_id oi) \<noteq> None"
    and run: "UpdateOrderStatus d e orderID ''completed'' = (r, d', evs)"
  shows "r = Inr () \<and>
         distinct (map fst (revenueOf evs)) \<and>
         set (map fst (revenueOf evs)) =
           {c. \<exists>oi\<in>set (itemsOfOrder d orderID).
                 categoryOfProduct d (oi_product_id oi) = Some c} \<and>
         (\<forall>x\<in>set (revenueOf evs).
            snd (snd x) = ''completed'' \<and>
            fst (snd x) = categorySum (float64 e) d orderID (fst x))"
proof -
  let ?F = "float64 e"
  let ?G = "\<lambda>oi. (oi_product_id oi, oi_quantity oi, f_scan ?F (oi_price oi),
                the (categoryOfProduct d (oi_product_id oi)))"
  let ?rows = "map ?G (itemsOfOrder d orderID)"
  from run UpdateOrderStatus_completed_events [OF ord ch nf] scan_itemQuery [OF pk cat, of ?F]
  have r: "r = Inr ()"
    and evs: "evs = recordCompleted ?F
        (ord\<lparr>o_status := ''completed'', o_updated_at := now_seconds e\<rparr>) ?rows"
    by simp_all
  have rv: "revenueOf evs =
      map (\<lambda>c. (c, valueAt64 ?F (completedRevenue ?F ?rows) c, ''completed''))
        (map fst (completedOrders ?rows))"
    unfolding evs by (rule revenueOf_recordCompleted)
  have keys: "map fst (revenueOf evs) = map fst (completedOrders ?rows)"
    unfolding rv by (simp add: comp_def)
  have d: "distinct (map fst (revenueOf evs))"
    unfolding keys by (rule distinct_completedOrders)
  have "set (map fst (revenueOf evs)) = rowCategory ` set ?rows"
    unfolding keys by (rule set_completedOrders)
  also have "\<dots> = {c. \<exists>oi\<in>set (itemsOfOrder d orderID).
                 categoryOfProduct d (oi_product_id oi) = Some c}"
    using cat by (force simp: image_iff rowCategory_def)
  finally have s: "set (map fst (revenueOf evs)) =
     {c. \<exists>oi\<in>set (itemsOfOrder d orderID). categoryOfProduct d (oi_product_id oi) = Some c}" .
  have sum: "valueAt64 ?F (completedRevenue ?F ?rows) c = categorySum ?F d orderID c" for c
  proof -
    have "filter (\<lambda>r. rowCategory r = c) ?rows =
        map ?G (filter (\<lambda>oi. categoryOfProduct d (oi_product_id oi) = Some c)
          (itemsOfOrder d orderID))"
      unfolding filter_map comp_def
      by (rule arg_cong [where f = "map ?G"], rule filter_cong)
         (use cat in \<open>auto simp: rowCategory_def\<close>)
    then show ?thesis
      unfolding valueAt64_completedRevenue categorySum_def
      by (simp add: comp_def rowAmount_def)
  qed
  have t: "\<forall>x\<in>set (revenueOf evs).
      snd (snd x) = ''completed'' \<and> fst (snd x) = categorySum ?F d orderID (fst x)"
    unfolding rv by (simp add: sum)
  from r d s t show ?thesis by (intro conjI)
qed

text \<open>
  An order that \<^verbatim>\<open>CreateOrder\<close> has just created has the sum over its stored items
  as its total, provided no stored order item pointed at an order that does not exist
  (the foreign key of \<^verbatim>\<open>order_items.order_id\<close>).
\<close>

lemma map_const_all:
  assumes "map f xs = map (\<lambda>_. c) ys"
  shows "\<forall>x\<in>set xs. f x = c"
proof -
  have "f ` set xs = set (map f xs)" by simp
  also have "\<dots> = set (map (\<lambda>_. c) ys)" using assms by simp
  also have "\<dots> \<subseteq> {c}" by auto
  finally show ?thesis by blast
qed

lemma CreateOrder_total_consistent:
  assumes run: "CreateOrder d e userID pm cur = (Inr ord, d', evs)"
    and fk: "\<forall>oi\<in>set (order_items d). oi_order_id oi \<in> set (map o_id (orders d))"
  shows "o_total_amount ord = (\<Sum>oi\<leftarrow>itemsOfOrder d' (o_id ord). oi_price oi * oi_quantity oi)"
proof -
  let ?items = "cartQuery d userID"
  from CreateOrder_Inr [OF run] obtain news where
    oid: "o_id ord = newOrderID d"
    and tot: "o_total_amount ord = (\<Sum>it\<leftarrow>?items. Price it * Quantity it)"
    and oi: "order_items d' = order_items d @ news"
    and m: "map (\<lambda>r. (oi_order_id r, oi_product_id r, oi_quantity r, oi_price r)) news =
            map (\<lambda>it. (o_id ord, ProductID it, Quantity it, Price it)) ?items"
    by blast
  have fresh: "newOrderID d \<notin> set (map o_id (orders d))"
    unfolding newOrderID_def by (rule auto_increment_fresh)
  have "oi_order_id x \<noteq> newOrderID d" if "x \<in> set (order_items d)" for x
  proof -
    from fk that have "oi_order_id x \<in> set (map o_id (orders d))" by (rule bspec)
    with fresh show ?thesis by auto
  qed
  then have old: "filter (\<lambda>oi. oi_order_id oi = o_id ord) (order_items d) = []"
    unfolding oid by (simp add: filter_empty_conv)
  from arg_cong [OF m, of "map fst"] have "map oi_order_id news = map (\<lambda>it. o_id ord) ?items"
    by (simp add: comp_def)
  then have "\<forall>r\<in>set news. oi_order_id r = o_id ord"
    by (rule map_const_all)
  then have new: "filter (\<lambda>oi. oi_order_id oi = o_id ord) news = news"
    by simp
  from arg_cong [OF m, of "map (\<lambda>(a, b, c, d). d * c)"]
  have "(\<Sum>r\<leftarrow>news. oi_price r * oi_quantity r) = (\<Sum>it\<leftarrow>?items. Price it * Quantity it)"
    by (simp add: comp_def)
  with tot old new oi show ?thesis
    by (simp add: itemsOfOrder_def)
qed

text \<open>
  Were the arithmetic exact, the amounts of the categories would add up to the sum over
  the order's items, and so to the total of an order as \<^verbatim>\<open>CreateOrder\<close> leaves it.
  With \<^verbatim>\<open>float64\<close> they do so only up to rounding.
\<close>

lemma sum_list_no_delta:
  "k \<notin> set cs \<Longrightarrow> (\<Sum>c\<leftarrow>cs. if k = c then v else 0) = (0::int)"
  by (induction cs) auto

lemma sum_list_delta:
  "distinct cs \<Longrightarrow> k \<in> set cs \<Longrightarrow> (\<Sum>c\<leftarrow>cs. if k = c then v else 0) = (v::int)"
  by (induction cs) (auto simp: sum_list_no_delta)

lemma sum_list_regroup:
  assumes "distinct cs" and "\<forall>x\<in>set xs. key x \<in> set cs"
  shows "(\<Sum>c\<leftarrow>cs. \<Sum>x\<leftarrow>filter (\<lambda>x. key x = c) xs. v x) = (\<Sum>x\<leftarrow>xs. (v x::int))"
  using assms(2)
proof (induction xs)
  case Nil
  then show ?case by simp
next
  case (Cons x xs)
  have "(\<Sum>c\<leftarrow>cs. \<Sum>y\<leftarrow>filter (\<lambda>y. key y = c) (x # xs). v y) =
        (\<Sum>c\<leftarrow>cs. (if key x = c then v x else 0) + (\<Sum>y\<leftarrow>filter (\<lambda>y. key y = c) xs. v y))"
    by (rule arg_cong [where f = sum_list], rule map_cong) auto
  also have "\<dots> = (\<Sum>c\<leftarrow>cs. if key x = c then v x else 0) +
        (\<Sum>c\<leftarrow>cs. \<Sum>y\<leftarrow>filter (\<lambda>y. key y = c) xs. v y)"
    by (rule sum_list_addf)
  also have "\<dots> = v x + (\<Sum>y\<leftarrow>xs. v y)"
    using Cons sum_list_delta [OF assms(1), of "key x" "v x"] by simp
  finally show ?case by simp
qed

lemma categorySum_exact:
  "categorySum exact_hundredths d orderID c =
     (\<Sum>oi\<leftarrow>filter (\<lambda>oi. categoryOfProduct d (oi_product_id oi) = Some c)
            (itemsOfOrder d orderID). oi_price oi * oi_quantity oi)"
proof -
  have "foldl (\<lambda>x y. x + y) (0::int) xs = sum_list xs" for xs
    using foldl_add_acc [of "\<lambda>x. x" 0 xs] by simp
  then show ?thesis
    by (simp add: categorySum_def exact_hundredths_def)
qed

lemma exact_category_sums_total:
  assumes "distinct cs"
    and "\<forall>oi\<in>set (itemsOfOrder d orderID).
           \<exists>c\<in>set cs. categoryOfProduct d (oi_product_id oi) = Some c"
  shows "(\<Sum>c\<leftarrow>cs. categorySum exact_hundredths d orderID c) =
         (\<Sum>oi\<leftarrow>itemsOfOrder d orderID. oi_price oi * oi_quantity oi)"
proof -
  have "(\<Sum>c\<leftarrow>cs. categorySum exact_hundredths d orderID c) =
        (\<Sum>k\<leftarrow>map Some cs.
           \<Sum>oi\<leftarrow>filter (\<lambda>oi. categoryOfProduct d (oi_product_id oi) = k)
                  (itemsOfOrder d orderID). oi_price oi * oi_quantity oi)"
    by (simp add: categorySum_exact comp_def)
  also have "\<dots> = (\<Sum>oi\<leftarrow>itemsOfOrder d orderID. oi_price oi * oi_quantity oi)"
  proof (rule sum_list_regroup)
    show "distinct (map Some cs)" using assms(1) by (simp add: distinct_map)
    show "\<forall>oi\<in>set (itemsOfOrder d orderID).
        categoryOfProduct d (oi_product_id oi) \<in> set (map Some cs)"
      using assms(2) by force
  qed
  finally show ?thesis .
qed

theorem completed_emits_revenue_per_category_witness:
  "UpdateOrderStatus demo_db_mixed status_ok 1 ''completed'' =
     (Inr (), updateStatus demo_db_mixed 1 ''completed'' 1060, demo_events_mixed) \<and>
   revenueOf demo_events_mixed =
     [(''Electronics'', 9925, ''completed''), (''Clothing'', 2000, ''completed'')] \<and>
   distinct (map fst (revenueOf demo_events_mixed)) \<and>
   categorySum (float64 status_ok) demo_db_mixed 1 ''Electronics'' = 9925"
proof -
  let ?ord = "\<lparr>o_id = 1, o_user_id = 7, o_status = ''pending'', o_payment_method = ''paypal'',
          o_total_amount = 11925, o_currency = ''USD'', o_updated_at = 1000\<rparr>"
  have ord: "find (\<lambda>ord. o_id ord = 1) (orders demo_db_mixed) = Some ?ord"
    by (simp add: demo_db_mixed_def)
  have ch: "\<not> (o_status ?ord = ''completed'' \<and> o_updated_at ?ord = now_seconds status_ok)"
    by simp
  have nf: "\<not> status_update_fails status_ok" "\<not> rows_affected_fails status_ok"
      "\<not> refetch_fails status_ok" "\<not> item_query_fails status_ok"
    by (simp_all add: status_ok_def)
  have pk: "distinct (map p_id (products demo_db_mixed))"
    by (simp add: demo_db_mixed_def)
  have cat: "\<forall>oi\<in>set (itemsOfOrder demo_db_mixed 1).
      categoryOfProduct demo_db_mixed (oi_product_id oi) \<noteq> None"
    by (simp add: demo_db_mixed_def itemsOfOrder_def categoryOfProduct_def)
  have run: "UpdateOrderStatus demo_db_mixed status_ok 1 ''completed'' =
     (Inr (), updateStatus demo_db_mixed 1 ''completed'' 1060, demo_events_mixed)"
    by (simp add: demo_db_mixed_def status_ok_def demo_events_mixed_def status_defs)
  have b: "revenueOf demo_events_mixed =
     [(''Electronics'', 9925, ''completed''), (''Clothing'', 2000, ''completed'')]"
    by (simp add: demo_events_mixed_def)
  note T = completed_emits_revenue_per_category [OF ord ch nf pk cat run]
  from T have c: "distinct (map fst (revenueOf demo_events_mixed))"
    by (elim conjE)
  from T have all: "\<forall>x\<in>set (revenueOf demo_events_mixed).
      snd (snd x) = ''completed'' \<and>
      fst (snd x) = categorySum (float64 status_ok) demo_db_mixed 1 (fst x)"
    by (elim conjE)
  have mem: "(''Electronics'', 9925, ''completed'') \<in> set (revenueOf demo_events_mixed)"
    unfolding b by simp
  from bspec [OF all mem]
  have a: "categorySum (float64 status_ok) demo_db_mixed 1 ''Electronics'' = 9925"
    by simp
  from run b c a show ?thesis by (intro conjI)
qed

text \<open>
  C7, as stated, fails. On the sample order (one item, category Electronics, total 19.98)
  with the item query returning a store error, the status update succeeds and no revenue
  event is emitted; the same happens with no store error at all when the product's
  category is NULL, because the row does not scan and is skipped.
\<close>

theorem completed_without_revenue_events:
  "fst (UpdateOrderStatus demo_db_ordered (status_ok\<lparr>item_query_fails := True\<rparr>) 1 ''completed'')
     = Inr () \<and>
   revenueOf (snd (snd
     (UpdateOrderStatus demo_db_ordered (status_ok\<lparr>item_query_fails := True\<rparr>) 1 ''completed'')))
     = [] \<and>
   map (\<lambda>oi. categoryOfProduct demo_db_ordered (oi_product_id oi))
     (itemsOfOrder demo_db_ordered 1) = [Some ''Electronics''] \<and>
   map o_total_amount (orders demo_db_ordered) = [1998] \<and>
   fst (UpdateOrderStatus demo_db_uncategorised status_ok 1 ''completed'') = Inr () \<and>
   revenueOf (snd (snd (UpdateOrderStatus demo_db_uncategorised status_ok 1 ''completed''))) = [] \<and>
   map o_total_amount (orders demo_db_uncategorised) = [1998]"
  by (simp add: demo_db_uncategorised_def demo_db_ordered_def demo_defs status_ok_def
      status_defs itemsOfOrder_def categoryOfProduct_def)

section \<open>The cart snapshot and the user's cart items\<close>

lemma ex_key_find:
  "distinct (map key cs) \<Longrightarrow>
   (\<exists>c\<in>set cs. key c = a \<and> P c) \<longleftrightarrow>
     (case find (\<lambda>c. key c = a) cs of None \<Rightarrow> False | Some c \<Rightarrow> P c)"
proof (induction cs)
  case Nil
  then show ?case by simp
next
  case (Cons c cs)
  show ?case
  proof (cases "key c = a")
    case True
    from Cons.prems have "key c \<notin> key ` set cs" by simp
    then have "\<forall>q\<in>set cs. key q \<noteq> key c" by (metis imageI)
    with True show ?thesis by auto
  next
    case False
    with Cons show ?thesis by auto
  qed
qed

lemma ex_key_find_any:
  "(\<exists>c\<in>set cs. key c = a) \<longleftrightarrow> find (\<lambda>c. key c = a) cs \<noteq> None"
  by (auto simp: find_None_iff)

lemma cartQuery_row:
  assumes pk: "distinct (map p_id ps)" and ck: "distinct (map c_id cs)"
    and fk: "(\<exists>c\<in>set cs. c_id c = ci_cart_id ci \<and> c_user_id c = userID) \<longrightarrow>
             (\<exists>p\<in>set ps. p_id p = ci_product_id ci)"
  shows "map (\<lambda>it. (ProductID it, Quantity it))
     (concat (map (\<lambda>p. if ci_product_id ci = p_id p
        then concat (map (\<lambda>c. if ci_cart_id ci = c_id c
          then (if c_user_id c = userID
                then [\<lparr>ProductID = ci_product_id ci, Quantity = ci_quantity ci,
                        Price = p_price p\<rparr>]
                else [])
          else []) cs)
        else []) ps)) =
     (if \<exists>c\<in>set cs. c_id c = ci_cart_id ci \<and> c_user_id c = userID
      then [(ci_product_id ci, ci_quantity ci)] else [])"
  using fk
  unfolding concat_key_join [OF pk] concat_key_join [OF ck] ex_key_find [OF ck] ex_key_find_any
  by (auto split: option.splits)


text \<open>
  With distinct product ids and cart ids, and a product for every cart item of the user,
  the snapshot has exactly one line per cart item of the user, with the item's product and
  quantity.
\<close>

lemma cartQuery_per_cart_item:
  assumes pk: "distinct (map p_id (products d))"
    and ck: "distinct (map c_id (carts d))"
    and fk: "\<forall>ci\<in>set (userCartItems d userID). \<exists>p\<in>set (products d). p_id p = ci_product_id ci"
  shows "map (\<lambda>it. (ProductID it, Quantity it)) (cartQuery d userID) =
         map (\<lambda>ci. (ci_product_id ci, ci_quantity ci)) (userCartItems d userID)"
proof -
  have gen: "\<forall>ci\<in>set cis. (\<exists>c\<in>set (carts d). c_id c = ci_cart_id ci \<and> c_user_id c = userID) \<longrightarrow>
        (\<exists>p\<in>set (products d). p_id p = ci_product_id ci) \<Longrightarrow>
      map (\<lambda>it. (ProductID it, Quantity it))
        (concat (map (\<lambda>ci. concat (map (\<lambda>p. if ci_product_id ci = p_id p
        then concat (map (\<lambda>c. if ci_cart_id ci = c_id c
          then (if c_user_id c = userID
                then [\<lparr>ProductID = ci_product_id ci, Quantity = ci_quantity ci,
                        Price = p_price p\<rparr>]
                else [])
          else []) (carts d))
        else []) (products d))) cis)) =
      map (\<lambda>ci. (ci_product_id ci, ci_quantity ci))
        (filter (\<lambda>ci. \<exists>c\<in>set (carts d). c_id c = ci_cart_id ci \<and> c_user_id c = userID) cis)"
    for cis :: "cart_item_row list"
  proof (induction cis)
    case Nil
    then show ?case by simp
  next
    case (Cons ci cis)
    from Cons.prems have
      h: "(\<exists>c\<in>set (carts d). c_id c = ci_cart_id ci \<and> c_user_id c = userID) \<longrightarrow>
        (\<exists>p\<in>set (products d). p_id p = ci_product_id ci)"
      and t: "\<forall>ci\<in>set cis. (\<exists>c\<in>set (carts d). c_id c = ci_cart_id ci \<and> c_user_id c = userID) \<longrightarrow>
        (\<exists>p\<in>set (products d). p_id p = ci_product_id ci)"
      by simp_all
    from Cons.IH [OF t] cartQuery_row [OF pk ck h] show ?case
      by (simp only: list.map concat.simps map_append filter.simps split: if_split) simp
  qed
  from fk have "\<forall>ci\<in>set (cart_items d).
      (\<exists>c\<in>set (carts d). c_id c = ci_cart_id ci \<and> c_user_id c = userID) \<longrightarrow>
      (\<exists>p\<in>set (products d). p_id p = ci_product_id ci)"
    by (simp add: userCartItems_def)
  from gen [OF this] show ?thesis
    by (simp add: cartQuery_def userCartItems_def)
qed

end
